theory Spec2Isabelle
  imports Main "HOL-Library.Word" "HOL-Library.AList"
begin

section \<open>Basic types of the node\<close>

type_synonym byte = "8 word"
type_synonym bytes = "byte list"

text \<open>\<open>common.Address\<close> is a 20-byte array and \<open>common.Hash\<close> a 32-byte array; both are
  compared as values, so they are modelled as words of 160 and 256 bits.\<close>

type_synonym address = "160 word"
type_synonym hash = "256 word"

text \<open>\<open>emptyBlockHash = common.Hash{}\<close>: the all-zero digest that stands for a nil vote.\<close>

definition emptyBlockHash :: hash where
  "emptyBlockHash = 0"

text \<open>A \<open>*types.Block\<close> as the consensus core reads it: \<open>Number()\<close> and \<open>Hash()\<close>.
  A nil pointer is \<open>None\<close> of \<open>block option\<close>.\<close>

record block =
  bNumber :: int
  bHash :: hash

text \<open>Errors returned by libraries outside the consensus core (RLP decoding of payloads,
  signature recovery, header extra-data extraction) are kept apart from the core's own
  error values.\<close>

datatype libError = LibError nat

datatype error =
    ErrInvalidProposalPOLRound
  | ErrInvalidProposalSignature
  | ErrVoteHeightMismatch
  | ErrVoteInvalidValidatorAddress
  | ErrEmptyBlockProposal
  | ErrEquivocation
  | ErrUnknownBlock
  | ErrEmptyValSet
  | ErrUnknownMsgCode "64 word"
  | ErrLib libError

text \<open>A Go panic ends the handler; it is a value of its own type, the left summand of
  every function that can panic.\<close>

datatype fatal =
    PanicNilBlockHash
  | PanicNoPrevotes
  | PanicNoPrecommits
  | PanicInvalidTimeoutStep
  | PanicNilDeref
  | PanicDivideByZero

section \<open>RLP encoding of a message\<close>

text \<open>Modelled from the spec: the \<open>rlp\<close> package is not among the sources. \<open>EncodeRLP\<close>
  "serializes m into the Ethereum RLP format", the spec's "length-prefixed structural
  encoding of the 5-tuple". The definitions below write that format out for the three
  kinds of field a message has: an unsigned integer, a byte string and a fixed byte array,
  wrapped in one list.\<close>

text \<open>Big-endian digits of a number without leading zeros (\<open>putint\<close>).\<close>

fun be_bytes :: "nat \<Rightarrow> bytes" where
  "be_bytes n = (if n = 0 then [] else be_bytes (n div 256) @ [of_nat (n mod 256)])"

declare be_bytes.simps [simp del]

text \<open>Big-endian digits on exactly \<open>k\<close> bytes, and the number a byte string denotes.\<close>

fun be_fixed :: "nat \<Rightarrow> nat \<Rightarrow> bytes" where
  "be_fixed 0 n = []"
| "be_fixed (Suc k) n = be_fixed k (n div 256) @ [of_nat (n mod 256)]"

definition be_nat :: "bytes \<Rightarrow> nat" where
  "be_nat bs = foldl (\<lambda>acc b. acc * 256 + unat b) 0 bs"

definition rlp_string_header :: "nat \<Rightarrow> bytes" where
  "rlp_string_header n =
     (if n < 56 then [of_nat (128 + n)]
      else of_nat (183 + length (be_bytes n)) # be_bytes n)"

definition rlp_list_header :: "nat \<Rightarrow> bytes" where
  "rlp_list_header n =
     (if n < 56 then [of_nat (192 + n)]
      else of_nat (247 + length (be_bytes n)) # be_bytes n)"

definition rlp_encode_bytes :: "bytes \<Rightarrow> bytes" where
  "rlp_encode_bytes b =
     (if length b = 1 \<and> hd b \<le> 127 then b
      else rlp_string_header (length b) @ b)"

definition rlp_encode_uint :: "64 word \<Rightarrow> bytes" where
  "rlp_encode_uint i =
     (if i = 0 then [128]
      else if i < 128 then [ucast i]
      else of_nat (128 + length (be_bytes (unat i))) # be_bytes (unat i))"

definition address_bytes :: "address \<Rightarrow> bytes" where
  "address_bytes a = be_fixed 20 (unat a)"

definition bytes_address :: "bytes \<Rightarrow> address" where
  "bytes_address bs = of_nat (be_nat bs)"

definition rlp_encode_list :: "bytes list \<Rightarrow> bytes" where
  "rlp_encode_list items = rlp_list_header (length (concat items)) @ concat items"

section \<open>Messages (core/messages.go)\<close>

text \<open>\<open>msgPropose\<close>, \<open>msgPrevote\<close>, \<open>msgPrecommit\<close>: an \<open>iota\<close> enumeration of \<open>uint64\<close>.\<close>

definition msgPropose :: "64 word" where "msgPropose = 0"
definition msgPrevote :: "64 word" where "msgPrevote = 1"
definition msgPrecommit :: "64 word" where "msgPrecommit = 2"

record message =
  Code :: "64 word"
  Msg :: bytes
  Address :: address
  Signature :: bytes
  CommittedSeal :: bytes

text \<open>\<open>EncodeRLP\<close>: the list of the five fields, in the order
  Code, Msg, Address, Signature, CommittedSeal.\<close>

definition EncodeRLP :: "message \<Rightarrow> bytes" where
  "EncodeRLP m =
     rlp_encode_list
       [rlp_encode_uint (Code m),
        rlp_encode_bytes (Msg m),
        rlp_encode_bytes (address_bytes (Address m)),
        rlp_encode_bytes (Signature m),
        rlp_encode_bytes (CommittedSeal m)]"

text \<open>\<open>PayLoadWithoutSignature\<close>: the encoding of the message with an empty signature.\<close>

definition PayLoadWithoutSignature :: "message \<Rightarrow> bytes" where
  "PayLoadWithoutSignature m =
     EncodeRLP \<lparr>Code = Code m, Msg = Msg m, Address = Address m,
                Signature = [], CommittedSeal = CommittedSeal m\<rparr>"

section \<open>Proposals, votes and the collaborators outside the core\<close>

record Proposal =
  pBlock :: "block option"
  pRound :: int
  POLRound :: int

text \<open>\<open>Vote.BlockHash\<close> is a pointer: \<open>None\<close> is the nil pointer, \<open>Some emptyBlockHash\<close>
  a vote for nil.\<close>

record Vote =
  vBlockHash :: "hash option"
  vRound :: int
  vBlockNumber :: int

text \<open>What the core calls outside the repository's consensus code: RLP decoding of the two
  payload kinds, and public-key recovery (\<open>crypto.SigToPub\<close> followed by
  \<open>crypto.PubkeyToAddress\<close>). They are parameters of the model.\<close>

record ext =
  decodeVote :: "bytes \<Rightarrow> libError + Vote"
  decodeProposal :: "bytes \<Rightarrow> libError + Proposal"
  SigToAddr :: "bytes \<Rightarrow> bytes \<Rightarrow> libError + address"

text \<open>\<open>GetAddressFromSignature\<close>: recover the signer of the payload without signature.\<close>

definition GetAddressFromSignature :: "ext \<Rightarrow> message \<Rightarrow> libError + address" where
  "GetAddressFromSignature x m = SigToAddr x (PayLoadWithoutSignature m) (Signature m)"

section \<open>Validator set\<close>

datatype ProposerPolicy = RoundRobin | Sticky

text \<open>Modelled from the spec: the validator set type (\<open>newDefaultSet\<close> and its methods) is
  not among the sources. The spec gives an ordered sequence of validators, compared by
  address, with \<open>get_by_address\<close>, \<open>get_proposer\<close> and \<open>calc_proposer\<close>; the proposer of
  a fresh set is element 0 of the sequence.\<close>

record validatorSet =
  validators :: "address list"
  proposer :: "address option"
  policy :: ProposerPolicy
  vsHeight :: int

definition NewSet :: "address list \<Rightarrow> ProposerPolicy \<Rightarrow> int \<Rightarrow> validatorSet" where
  "NewSet addrs pol height =
     \<lparr>validators = addrs,
      proposer = (case addrs of [] \<Rightarrow> None | a # _ \<Rightarrow> Some a),
      policy = pol, vsHeight = height\<rparr>"

fun index_of :: "address \<Rightarrow> address list \<Rightarrow> nat option" where
  "index_of a [] = None"
| "index_of a (b # bs) =
     (if a = b then Some 0
      else (case index_of a bs of None \<Rightarrow> None | Some i \<Rightarrow> Some (Suc i)))"

definition GetByAddress :: "address \<Rightarrow> validatorSet \<Rightarrow> nat option" where
  "GetByAddress a vs = index_of a (validators vs)"

definition GetProposer :: "validatorSet \<Rightarrow> address option" where
  "GetProposer vs = proposer vs"

definition IsProposer :: "address \<Rightarrow> validatorSet \<Rightarrow> bool" where
  "IsProposer a vs = (GetProposer vs = Some a)"

text \<open>Modelled from the spec: \<open>calc_proposer(prev_proposer_addr, round)\<close>, "next proposer
  index = (index_of(prev_proposer) + round) mod |set|". It fails, leaving the set as it is,
  when the address is not in the set (the caller drops the result).\<close>

definition CalcProposer :: "address \<Rightarrow> int \<Rightarrow> validatorSet \<Rightarrow> validatorSet" where
  "CalcProposer lastProposer round vs =
     (case GetByAddress lastProposer vs of
        None \<Rightarrow> vs
      | Some i \<Rightarrow>
          vs\<lparr>proposer :=
               Some (validators vs ! nat ((int i + round) mod int (length (validators vs))))\<rparr>)"

definition proposerIndex :: "validatorSet \<Rightarrow> nat option" where
  "proposerIndex vs =
     (case GetProposer vs of None \<Rightarrow> None | Some a \<Rightarrow> GetByAddress a vs)"

text \<open>Modelled from the spec: quorum arithmetic, \<open>f = \<lfloor>(n - 1) / 3\<rfloor>\<close> and \<open>Q = 2 f + 1\<close>.\<close>

definition F :: "validatorSet \<Rightarrow> nat" where
  "F vs = (length (validators vs) - 1) div 3"

definition Q :: "validatorSet \<Rightarrow> nat" where
  "Q vs = 2 * F vs + 1"

section \<open>Vote set\<close>

text \<open>Modelled from the spec: the vote set of one (height, round, kind) is not among the
  sources. It holds the validator set by value and one recorded hash per voter, in the
  order of admission; the count of a hash is the number of voters recorded with it.\<close>

record voteSet =
  vsValSet :: validatorSet
  votes :: "(address \<times> hash) list"

definition newVoteSet :: "validatorSet \<Rightarrow> voteSet" where
  "newVoteSet vs = \<lparr>vsValSet = vs, votes = []\<rparr>"

definition countHash :: "hash \<Rightarrow> (address \<times> hash) list \<Rightarrow> nat" where
  "countHash h vl = length (filter (\<lambda>p. snd p = h) vl)"

text \<open>Modelled from the spec: \<open>two_thirds_majority\<close> "returns the unique hash h with
  count(h) \<ge> Q, if any"; \<open>has_two_thirds_any\<close> is "true when total distinct voters \<ge> Q".\<close>

definition TwoThirdMajority :: "voteSet \<Rightarrow> hash option" where
  "TwoThirdMajority pv =
     find (\<lambda>h. Q (vsValSet pv) \<le> countHash h (votes pv)) (map snd (votes pv))"

definition HasTwoThirdAny :: "voteSet \<Rightarrow> bool" where
  "HasTwoThirdAny pv = (Q (vsValSet pv) \<le> length (votes pv))"

text \<open>Modelled from the spec: \<open>Admit(vote, sender)\<close> "rejects if sender is not in the
  validator set; rejects with error if already recorded with a different hash; returns
  added = false if identical duplicate"; otherwise the vote is counted.\<close>

definition Admit :: "hash \<Rightarrow> address \<Rightarrow> voteSet \<Rightarrow> error + (bool \<times> voteSet)" where
  "Admit h sender pv =
     (if sender \<notin> set (validators (vsValSet pv)) then Inl ErrVoteInvalidValidatorAddress
      else (case map_of (votes pv) sender of
              Some h' \<Rightarrow> if h' = h then Inr (False, pv) else Inl ErrEquivocation
            | None \<Rightarrow> Inr (True, pv\<lparr>votes := votes pv @ [(sender, h)]\<rparr>)))"

section \<open>Round state\<close>

text \<open>Modelled from the spec: the step enumeration is not among the sources; the spec
  gives its total order NewHeight < NewRound < Propose < Prevote < PrevoteWait <
  Precommit < PrecommitWait < Commit.\<close>

datatype RoundStepType =
    RoundStepNewHeight
  | RoundStepNewRound
  | RoundStepPropose
  | RoundStepPrevote
  | RoundStepPrevoteWait
  | RoundStepPrecommit
  | RoundStepPrecommitWait
  | RoundStepCommit

fun stepNum :: "RoundStepType \<Rightarrow> nat" where
  "stepNum RoundStepNewHeight = 1"
| "stepNum RoundStepNewRound = 2"
| "stepNum RoundStepPropose = 3"
| "stepNum RoundStepPrevote = 4"
| "stepNum RoundStepPrevoteWait = 5"
| "stepNum RoundStepPrecommit = 6"
| "stepNum RoundStepPrecommitWait = 7"
| "stepNum RoundStepCommit = 8"

text \<open>Modelled from the spec: the round state record and its accessors are not among the
  sources. Rounds are \<open>int64\<close> in the code and \<open>int\<close> here, holding a value of the
  \<open>int64\<close> range; where the source adds to a round, the model wraps the sum. The vote
  sets per round are association lists.\<close>

record roundState =
  BlockNumber :: int
  Round :: int
  Step :: RoundStepType
  ProposalReceived :: "Proposal option"
  LockedRound :: int
  LockedBlock :: "block option"
  ValidRound :: int
  ValidBlock :: "block option"
  Block :: "block option"
  PrevotesReceived :: "(int \<times> voteSet) list"
  PrecommitsReceived :: "(int \<times> voteSet) list"

text \<open>Modelled from the spec: \<open>update_round_step(r, s)\<close> "enforces that either r > current
  round or r == current round and s > current step"; any other call changes nothing.\<close>

definition UpdateRoundStep :: "int \<Rightarrow> RoundStepType \<Rightarrow> roundState \<Rightarrow> roundState" where
  "UpdateRoundStep r s st =
     (if Round st < r \<or> (r = Round st \<and> stepNum (Step st) < stepNum s)
      then st\<lparr>Round := r, Step := s\<rparr> else st)"

definition SetValidRoundAndBlock :: "int \<Rightarrow> block option \<Rightarrow> roundState \<Rightarrow> roundState" where
  "SetValidRoundAndBlock r b st = st\<lparr>ValidRound := r, ValidBlock := b\<rparr>"

definition SetProposalReceived :: "Proposal option \<Rightarrow> roundState \<Rightarrow> roundState" where
  "SetProposalReceived p st = st\<lparr>ProposalReceived := p\<rparr>"

text \<open>Modelled from the spec: "Unlock (clear locked_*)".\<close>

definition Unlock :: "roundState \<Rightarrow> roundState" where
  "Unlock st = st\<lparr>LockedRound := - 1, LockedBlock := None\<rparr>"

definition GetPrevotesByRound :: "int \<Rightarrow> roundState \<Rightarrow> voteSet option" where
  "GetPrevotesByRound r st = map_of (PrevotesReceived st) r"

definition GetPrecommitsByRound :: "int \<Rightarrow> roundState \<Rightarrow> voteSet option" where
  "GetPrecommitsByRound r st = map_of (PrecommitsReceived st) r"

text \<open>Modelled from the spec: a proposal is complete when "we now have proposal + any
  required POL votes": a proposal was received and, if it names a POL round, the prevotes
  of that round have a two-thirds majority.\<close>

definition IsProposalComplete :: "roundState \<Rightarrow> bool" where
  "IsProposalComplete st =
     (case ProposalReceived st of
        None \<Rightarrow> False
      | Some p \<Rightarrow>
          if POLRound p < 0 then True
          else (case GetPrevotesByRound (POLRound p) st of
                  None \<Rightarrow> False
                | Some pv \<Rightarrow> TwoThirdMajority pv \<noteq> None))"

text \<open>The hash a vote carries once the handler has checked that it is present.\<close>

definition voteHash :: "Vote \<Rightarrow> hash" where
  "voteHash v = (case vBlockHash v of None \<Rightarrow> emptyBlockHash | Some h \<Rightarrow> h)"

text \<open>Modelled from the spec: \<open>addPrevote\<close> and \<open>addPrecommit\<close> admit the vote into the
  vote set of the vote's round, creating the set on first use; the sender is the address
  the message declares.\<close>

definition addPrevote ::
  "message \<Rightarrow> Vote \<Rightarrow> validatorSet \<Rightarrow> roundState \<Rightarrow> error + (bool \<times> roundState)" where
  "addPrevote msg vote vs st =
     (let pv = (case GetPrevotesByRound (vRound vote) st of
                  None \<Rightarrow> newVoteSet vs | Some pv \<Rightarrow> pv)
      in case Admit (voteHash vote) (Address msg) pv of
           Inl e \<Rightarrow> Inl e
         | Inr (added, pv') \<Rightarrow>
             Inr (added,
                  st\<lparr>PrevotesReceived :=
                       AList.update (vRound vote) pv' (PrevotesReceived st)\<rparr>))"

definition addPrecommit ::
  "message \<Rightarrow> Vote \<Rightarrow> validatorSet \<Rightarrow> roundState \<Rightarrow> error + (bool \<times> roundState)" where
  "addPrecommit msg vote vs st =
     (let pv = (case GetPrecommitsByRound (vRound vote) st of
                  None \<Rightarrow> newVoteSet vs | Some pv \<Rightarrow> pv)
      in case Admit (voteHash vote) (Address msg) pv of
           Inl e \<Rightarrow> Inl e
         | Inr (added, pv') \<Rightarrow>
             Inr (added,
                  st\<lparr>PrecommitsReceived :=
                       AList.update (vRound vote) pv' (PrecommitsReceived st)\<rparr>))"

section \<open>The core: state, outputs and timers\<close>

text \<open>Modelled from the spec: timeout durations, "propose_timeout(r) = T0_propose +
  r * dT_propose, analogously for prevote and precommit", in milliseconds.\<close>

record config =
  TimeoutPropose :: int
  TimeoutProposeDelta :: int
  TimeoutPrevote :: int
  TimeoutPrevoteDelta :: int
  TimeoutPrecommit :: int
  TimeoutPrecommitDelta :: int

definition ProposeTimeout :: "config \<Rightarrow> int \<Rightarrow> int" where
  "ProposeTimeout cfg r = TimeoutPropose cfg + r * TimeoutProposeDelta cfg"

definition PrevoteTimeout :: "config \<Rightarrow> int \<Rightarrow> int" where
  "PrevoteTimeout cfg r = TimeoutPrevote cfg + r * TimeoutPrevoteDelta cfg"

definition PrecommitTimeout :: "config \<Rightarrow> int \<Rightarrow> int" where
  "PrecommitTimeout cfg r = TimeoutPrecommit cfg + r * TimeoutPrecommitDelta cfg"

record timeoutInfo =
  Duration :: int
  tiBlockNumber :: int
  tiRound :: int
  tiStep :: RoundStepType

text \<open>What the node sends out: a proposal, or a vote of a kind (the message code).\<close>

datatype outMsg = OutProposal Proposal | OutVote "64 word" Vote

text \<open>The core: its round state, its validator set, its own address
  (\<open>c.backend.Address()\<close>), its configuration, and the effects it has on its
  collaborators, each as the list of what was handed over so far: timeouts armed, messages
  broadcast, messages gossiped again, and hashes delivered for commit.\<close>

record core =
  currentState :: roundState
  valSet :: validatorSet
  backendAddress :: address
  coreConfig :: config
  scheduled :: "timeoutInfo list"
  sent :: "outMsg list"
  gossiped :: "message list"
  committed :: "hash list"

definition ScheduleTimeout :: "timeoutInfo \<Rightarrow> core \<Rightarrow> core" where
  "ScheduleTimeout ti c = c\<lparr>scheduled := scheduled c @ [ti]\<rparr>"

text \<open>Modelled from the spec: \<open>SendPropose\<close> and \<open>SendVote\<close> are not among the sources;
  the spec has them broadcast the proposal, and a vote of the given kind for the hash of
  the given block at the current height, \<open>H_nil\<close> for a nil block.\<close>

definition SendPropose :: "Proposal \<Rightarrow> core \<Rightarrow> core" where
  "SendPropose p c = c\<lparr>sent := sent c @ [OutProposal p]\<rparr>"

definition blockHashOf :: "block option \<Rightarrow> hash" where
  "blockHashOf b = (case b of None \<Rightarrow> emptyBlockHash | Some blk \<Rightarrow> bHash blk)"

definition SendVote :: "64 word \<Rightarrow> block option \<Rightarrow> int \<Rightarrow> core \<Rightarrow> core" where
  "SendVote voteType b r c =
     c\<lparr>sent := sent c @
         [OutVote voteType
            \<lparr>vBlockHash = Some (blockHashOf b), vRound = r,
             vBlockNumber = BlockNumber (currentState c)\<rparr>]\<rparr>"

definition updState :: "(roundState \<Rightarrow> roundState) \<Rightarrow> core \<Rightarrow> core" where
  "updState f c = c\<lparr>currentState := f (currentState c)\<rparr>"

section \<open>The state machine (the enter functions)\<close>

text \<open>\<open>defaultDoPrevote\<close>: prevote the locked block if there is a lock, nil if no
  proposal was received, the received proposal's block otherwise.\<close>

definition defaultDoPrevote :: "int \<Rightarrow> core \<Rightarrow> core" where
  "defaultDoPrevote r c =
     (let state = currentState c in
      if LockedRound state \<noteq> - 1 then SendVote msgPrevote (LockedBlock state) r c
      else (case ProposalReceived state of
              None \<Rightarrow> SendVote msgPrevote None r c
            | Some p \<Rightarrow> SendVote msgPrevote (pBlock p) r c))"

text \<open>\<open>enterPrevote\<close>: the guard, the prevote, and the deferred step update.\<close>

definition enterPrevote :: "int \<Rightarrow> int \<Rightarrow> core \<Rightarrow> core" where
  "enterPrevote blockNumber r c =
     (let state = currentState c;
          sBlockNumber = BlockNumber state; sRound = Round state; sStep = Step state in
      if sBlockNumber \<noteq> blockNumber \<or> r < sRound \<or>
         (sRound = r \<and> stepNum RoundStepPrevote \<le> stepNum sStep)
      then c
      else updState (UpdateRoundStep r RoundStepPrevote) (defaultDoPrevote r c))"

text \<open>\<open>defaultDecideProposal\<close>: the valid block if there is one, the node's own block
  otherwise.\<close>

definition defaultDecideProposal :: "int \<Rightarrow> core \<Rightarrow> Proposal" where
  "defaultDecideProposal r c =
     (let state = currentState c in
      if ValidRound state \<noteq> - 1
      then \<lparr>pBlock = ValidBlock state, pRound = r, POLRound = ValidRound state\<rparr>
      else \<lparr>pBlock = Block state, pRound = r, POLRound = - 1\<rparr>)"

text \<open>\<open>enterPropose\<close>: the guard; the propose timeout; the proposal if this node is a
  validator and the proposer; then the deferred function, which updates the step and
  enters prevote, with the round read at entry, if the proposal is complete.\<close>

definition enterPropose :: "int \<Rightarrow> int \<Rightarrow> core \<Rightarrow> core" where
  "enterPropose blockNumber r c =
     (let state = currentState c;
          sBlockNumber = BlockNumber state; sRound = Round state; sStep = Step state in
      if sBlockNumber \<noteq> blockNumber \<or> r < sRound \<or>
         (sRound = r \<and> stepNum RoundStepPropose \<le> stepNum sStep)
      then c
      else
        let c1 = ScheduleTimeout
                   \<lparr>Duration = ProposeTimeout (coreConfig c) r, tiBlockNumber = blockNumber,
                    tiRound = r, tiStep = RoundStepPropose\<rparr> c;
            c2 = (if GetByAddress (backendAddress c1) (valSet c1) = None then c1
                  else if IsProposer (backendAddress c1) (valSet c1)
                       then SendPropose (defaultDecideProposal r c1) c1
                       else c1);
            c3 = updState (UpdateRoundStep r RoundStepPropose) c2
        in if IsProposalComplete (currentState c3) then enterPrevote blockNumber sRound c3
           else c3)"

text \<open>\<open>enterNewRound\<close>: the guard; the proposer is recalculated from the current one
  and the round entered when that round is higher; the step update; the valid block is
  cleared in round 0; then \<open>enterPropose\<close>. \<open>GetProposer\<close> of an empty set is nil, and
  taking its address panics.\<close>

definition enterNewRound :: "int \<Rightarrow> int \<Rightarrow> core \<Rightarrow> fatal + core" where
  "enterNewRound blockNumber r c =
     (let state = currentState c;
          sBlockNumber = BlockNumber state; sRound = Round state; sStep = Step state in
      if sBlockNumber \<noteq> blockNumber \<or> r < sRound \<or>
         (sRound = r \<and> sStep \<noteq> RoundStepNewHeight)
      then Inr c
      else
        (case (if sRound < r
               then (case GetProposer (valSet c) of
                       None \<Rightarrow> Inl PanicNilDeref
                     | Some currentProposer \<Rightarrow>
                         Inr (c\<lparr>valSet := CalcProposer currentProposer r (valSet c)\<rparr>))
               else Inr c) of
           Inl f \<Rightarrow> Inl f
         | Inr c1 \<Rightarrow>
             let c2 = updState (UpdateRoundStep r RoundStepNewRound) c1;
                 c3 = (if r = 0 then updState (SetValidRoundAndBlock (- 1) None) c2 else c2)
             in Inr (enterPropose blockNumber r c3)))"

text \<open>\<open>enterPrevoteWait\<close>: the guard; the two checks on the prevotes only log and do not
  return (a missing vote set is a nil pointer, and asking it panics); the prevote timeout;
  the deferred step update.\<close>

definition enterPrevoteWait :: "int \<Rightarrow> int \<Rightarrow> core \<Rightarrow> fatal + core" where
  "enterPrevoteWait blockNumber r c =
     (let state = currentState c;
          sBlockNumber = BlockNumber state; sRound = Round state; sStep = Step state in
      if sBlockNumber \<noteq> blockNumber \<or> r < sRound \<or>
         (sRound = r \<and> stepNum RoundStepPrevoteWait \<le> stepNum sStep)
      then Inr c
      else (case GetPrevotesByRound r state of
              None \<Rightarrow> Inl PanicNilDeref
            | Some prevotes \<Rightarrow>
                Inr (updState (UpdateRoundStep r RoundStepPrevoteWait)
                       (ScheduleTimeout
                          \<lparr>Duration = PrevoteTimeout (coreConfig c) r,
                           tiBlockNumber = blockNumber, tiRound = r,
                           tiStep = RoundStepPrevoteWait\<rparr> c))))"

text \<open>\<open>enterPrecommit\<close>: the body of the function is the comment "TODO: implement this".\<close>

definition enterPrecommit :: "int \<Rightarrow> int \<Rightarrow> core \<Rightarrow> core" where
  "enterPrecommit blockNumber r c = c"

text \<open>Modelled from the spec: \<open>enterPrecommitWait\<close> is not among the sources. "Guard:
  precommits[r] exists, has_two_thirds_any, no single-hash majority on a real block. Arm
  precommit-timeout(r). Set step = PrecommitWait", after the stale-check every enter
  function begins with.\<close>

definition enterPrecommitWait :: "int \<Rightarrow> int \<Rightarrow> core \<Rightarrow> core" where
  "enterPrecommitWait blockNumber r c =
     (let state = currentState c;
          sBlockNumber = BlockNumber state; sRound = Round state; sStep = Step state in
      if sBlockNumber \<noteq> blockNumber \<or> r < sRound \<or>
         (sRound = r \<and> stepNum RoundStepPrecommitWait \<le> stepNum sStep)
      then c
      else (case GetPrecommitsByRound r state of
              None \<Rightarrow> c
            | Some precommits \<Rightarrow>
                if HasTwoThirdAny precommits \<and>
                   (case TwoThirdMajority precommits of
                      None \<Rightarrow> True | Some h \<Rightarrow> h = emptyBlockHash)
                then updState (UpdateRoundStep r RoundStepPrecommitWait)
                       (ScheduleTimeout
                          \<lparr>Duration = PrecommitTimeout (coreConfig c) r,
                           tiBlockNumber = blockNumber, tiRound = r,
                           tiStep = RoundStepPrecommitWait\<rparr> c)
                else c))"

text \<open>Modelled from the spec: \<open>enterCommit\<close> is not among the sources. "Entered when
  precommits[r] has two_thirds_majority() = h_maj, not H_nil. Action: deliver the block
  with hash h_maj to the chain backend. Set step = Commit."\<close>

definition enterCommit :: "int \<Rightarrow> int \<Rightarrow> core \<Rightarrow> core" where
  "enterCommit blockNumber r c =
     (let state = currentState c;
          sBlockNumber = BlockNumber state; sRound = Round state; sStep = Step state in
      if sBlockNumber \<noteq> blockNumber \<or> r < sRound \<or>
         (sRound = r \<and> stepNum RoundStepCommit \<le> stepNum sStep)
      then c
      else (case GetPrecommitsByRound r state of
              None \<Rightarrow> c
            | Some precommits \<Rightarrow>
                (case TwoThirdMajority precommits of
                   None \<Rightarrow> c
                 | Some h \<Rightarrow>
                     if h = emptyBlockHash then c
                     else updState (UpdateRoundStep r RoundStepCommit)
                            (c\<lparr>committed := committed c @ [h]\<rparr>))))"

section \<open>Message handlers\<close>

text \<open>\<open>verifyProposal\<close>: the POL round test as the source writes it (a conjunction of
  three comparisons), the signer recovered from the signature, the proposer of the round,
  and the block.\<close>

definition verifyProposal :: "ext \<Rightarrow> core \<Rightarrow> Proposal \<Rightarrow> message \<Rightarrow> fatal + error option" where
  "verifyProposal x c proposal msg =
     (if POLRound proposal < - 1 \<and> POLRound proposal \<ge> 0 \<and>
         POLRound proposal \<ge> pRound proposal
      then Inr (Some ErrInvalidProposalPOLRound)
      else (case GetAddressFromSignature x msg of
              Inl e \<Rightarrow> Inr (Some (ErrLib e))
            | Inr signer \<Rightarrow>
                (case GetProposer (valSet c) of
                   None \<Rightarrow> Inl PanicNilDeref
                 | Some p \<Rightarrow>
                     if p \<noteq> signer then Inr (Some ErrInvalidProposalSignature)
                     else if pBlock proposal = None \<or>
                             (pBlock proposal \<noteq> None \<and>
                              blockHashOf (pBlock proposal) = emptyBlockHash)
                          then Inr (Some ErrEmptyBlockProposal)
                          else Inr None)))"

text \<open>A handler returns the error it hands back to \<open>handleMsg\<close> (\<open>None\<close> for nil) and the
  core it leaves behind, or panics. \<open>handlePropose\<close> reads \<open>proposal.Block.Hash()\<close> for
  its log line right after decoding, which panics on a nil block.\<close>

definition handlePropose :: "ext \<Rightarrow> message \<Rightarrow> core \<Rightarrow> fatal + (error option \<times> core)" where
  "handlePropose x msg c =
     (let state = currentState c in
      case decodeProposal x (Msg msg) of
        Inl e \<Rightarrow> Inr (Some (ErrLib e), c)
      | Inr proposal \<Rightarrow>
          (case pBlock proposal of
             None \<Rightarrow> Inl PanicNilDeref
           | Some b \<Rightarrow>
               if ProposalReceived state \<noteq> None then Inr (None, c)
               else if bNumber b \<noteq> BlockNumber state \<or> pRound proposal \<noteq> Round state
               then Inr (None, c)
               else (case verifyProposal x c proposal msg of
                       Inl f \<Rightarrow> Inl f
                     | Inr (Some err) \<Rightarrow> Inr (Some err, c)
                     | Inr None \<Rightarrow>
                         Inr (None, updState (SetProposalReceived (Some proposal)) c))))"

text \<open>The goroutine both vote handlers start: gossip the message again unless it is the
  node's own.\<close>

definition regossip :: "message \<Rightarrow> core \<Rightarrow> core" where
  "regossip msg c =
     (if Address msg = backendAddress c then c else c\<lparr>gossiped := gossiped c @ [msg]\<rparr>)"

text \<open>\<open>handlePrevote\<close>, the block run when the prevotes of the vote's round have a
  two-thirds majority: first the unlock on a POL, then the valid block update.\<close>

definition unlockOnPOL :: "Vote \<Rightarrow> hash \<Rightarrow> roundState \<Rightarrow> fatal + roundState" where
  "unlockOnPOL vote blockHash st =
     (let lockedRound = LockedRound st; lockedBlock = LockedBlock st in
      if lockedRound \<noteq> - 1 \<and> lockedRound < vRound vote \<and> vRound vote \<le> Round st
      then (case lockedBlock of
              None \<Rightarrow> Inl PanicNilDeref
            | Some lb \<Rightarrow> if bHash lb \<noteq> blockHash then Inr (Unlock st) else Inr st)
      else Inr st)"

definition updateValidBlock :: "Vote \<Rightarrow> hash \<Rightarrow> roundState \<Rightarrow> fatal + roundState" where
  "updateValidBlock vote blockHash st =
     (if blockHash \<noteq> emptyBlockHash \<and> ValidRound st < vRound vote \<and> vRound vote = Round st
      then (case ProposalReceived st of
              None \<Rightarrow> Inr (SetProposalReceived None st)
            | Some p \<Rightarrow>
                (case pBlock p of
                   None \<Rightarrow> Inl PanicNilDeref
                 | Some b \<Rightarrow>
                     if bHash b = blockHash
                     then Inr (SetValidRoundAndBlock (vRound vote) (pBlock p) st)
                     else Inr (SetProposalReceived None st)))
      else Inr st)"

definition prevotePOL :: "Vote \<Rightarrow> voteSet \<Rightarrow> roundState \<Rightarrow> fatal + roundState" where
  "prevotePOL vote prevotes st =
     (case TwoThirdMajority prevotes of
        None \<Rightarrow> Inr st
      | Some blockHash \<Rightarrow>
          (case unlockOnPOL vote blockHash st of
             Inl f \<Rightarrow> Inl f
           | Inr st1 \<Rightarrow> updateValidBlock vote blockHash st1))"

text \<open>\<open>handlePrevote\<close>, the closing \<open>switch\<close>: the first case that holds is run.\<close>

definition prevoteTransitions :: "Vote \<Rightarrow> voteSet \<Rightarrow> core \<Rightarrow> fatal + core" where
  "prevoteTransitions vote prevotes c =
     (let state = currentState c in
      if Round state < vRound vote \<and> HasTwoThirdAny prevotes
      then enterNewRound (BlockNumber state) (vRound vote) c
      else if Round state = vRound vote \<and> stepNum RoundStepPrevote \<le> stepNum (Step state)
      then (case TwoThirdMajority prevotes of
              Some blockHash \<Rightarrow>
                if IsProposalComplete state \<or> blockHash = emptyBlockHash
                then Inr (enterPrecommit (BlockNumber state) (vRound vote) c)
                else if HasTwoThirdAny prevotes
                     then enterPrevoteWait (BlockNumber state) (vRound vote) c
                     else Inr c
            | None \<Rightarrow>
                if HasTwoThirdAny prevotes
                then enterPrevoteWait (BlockNumber state) (vRound vote) c
                else Inr c)
      else if (case ProposalReceived state of
                 None \<Rightarrow> False
               | Some p \<Rightarrow> 0 \<le> POLRound p \<and> POLRound p = vRound vote)
      then (if IsProposalComplete state
            then Inr (enterPrevote (BlockNumber state) (vRound vote) c)
            else Inr c)
      else Inr c)"

definition handlePrevote :: "ext \<Rightarrow> message \<Rightarrow> core \<Rightarrow> fatal + (error option \<times> core)" where
  "handlePrevote x msg c =
     (case decodeVote x (Msg msg) of
        Inl e \<Rightarrow> Inr (Some (ErrLib e), c)
      | Inr vote \<Rightarrow>
          if vBlockHash vote = None then Inl PanicNilBlockHash
          else if vBlockNumber vote \<noteq> BlockNumber (currentState c) then Inr (None, c)
          else (case addPrevote msg vote (valSet c) (currentState c) of
                  Inl err \<Rightarrow> Inr (Some err, c)
                | Inr (added, st1) \<Rightarrow>
                    if \<not> added then Inr (None, c\<lparr>currentState := st1\<rparr>)
                    else (case GetPrevotesByRound (vRound vote) st1 of
                            None \<Rightarrow> Inl PanicNoPrevotes
                          | Some prevotes \<Rightarrow>
                              (case prevotePOL vote prevotes st1 of
                                 Inl f \<Rightarrow> Inl f
                               | Inr st2 \<Rightarrow>
                                   (case prevoteTransitions vote prevotes
                                           (regossip msg (c\<lparr>currentState := st2\<rparr>)) of
                                      Inl f \<Rightarrow> Inl f
                                    | Inr c3 \<Rightarrow> Inr (None, c3))))))"

text \<open>\<open>handlePrecommit\<close>: the same admission, then the transitions on the precommits of
  the vote's round.\<close>

definition precommitTransitions :: "Vote \<Rightarrow> voteSet \<Rightarrow> core \<Rightarrow> fatal + core" where
  "precommitTransitions vote precommits c =
     (case TwoThirdMajority precommits of
        Some blockHash \<Rightarrow>
          (case enterNewRound (BlockNumber (currentState c)) (vRound vote) c of
             Inl f \<Rightarrow> Inl f
           | Inr c1 \<Rightarrow>
               let c2 = enterPrecommit (BlockNumber (currentState c1)) (vRound vote) c1 in
               if blockHash \<noteq> emptyBlockHash
               then Inr (enterCommit (BlockNumber (currentState c2)) (vRound vote) c2)
               else Inr (enterPrecommitWait (BlockNumber (currentState c2)) (vRound vote) c2))
      | None \<Rightarrow>
          if Round (currentState c) \<le> vRound vote \<and> HasTwoThirdAny precommits
          then (case enterNewRound (BlockNumber (currentState c)) (vRound vote) c of
                  Inl f \<Rightarrow> Inl f
                | Inr c1 \<Rightarrow>
                    Inr (enterPrecommitWait (BlockNumber (currentState c1)) (vRound vote) c1))
          else Inr c)"

definition handlePrecommit :: "ext \<Rightarrow> message \<Rightarrow> core \<Rightarrow> fatal + (error option \<times> core)" where
  "handlePrecommit x msg c =
     (case decodeVote x (Msg msg) of
        Inl e \<Rightarrow> Inr (Some (ErrLib e), c)
      | Inr vote \<Rightarrow>
          if vBlockHash vote = None then Inl PanicNilBlockHash
          else if vBlockNumber vote \<noteq> BlockNumber (currentState c) then Inr (None, c)
          else (case addPrecommit msg vote (valSet c) (currentState c) of
                  Inl err \<Rightarrow> Inr (Some err, c)
                | Inr (added, st1) \<Rightarrow>
                    if \<not> added then Inr (None, c\<lparr>currentState := st1\<rparr>)
                    else (case GetPrecommitsByRound (vRound vote) st1 of
                            None \<Rightarrow> Inl PanicNoPrecommits
                          | Some precommits \<Rightarrow>
                              (case precommitTransitions vote precommits
                                      (regossip msg (c\<lparr>currentState := st1\<rparr>)) of
                                 Inl f \<Rightarrow> Inl f
                               | Inr c2 \<Rightarrow> Inr (None, c2)))))"

definition handleMsg :: "ext \<Rightarrow> message \<Rightarrow> core \<Rightarrow> fatal + (error option \<times> core)" where
  "handleMsg x msg c =
     (if Code msg = msgPropose then handlePropose x msg c
      else if Code msg = msgPrevote then handlePrevote x msg c
      else if Code msg = msgPrecommit then handlePrecommit x msg c
      else Inr (Some (ErrUnknownMsgCode (Code msg)), c))"

section \<open>Timeouts\<close>

text \<open>The test \<open>handleTimeout\<close> makes before anything else: the timeout is for another
  height, an earlier round, or an earlier step of the current round.\<close>

definition staleTimeout :: "timeoutInfo \<Rightarrow> core \<Rightarrow> bool" where
  "staleTimeout ti c =
     (let r = Round (currentState c);
          blockNumber = BlockNumber (currentState c);
          step = Step (currentState c) in
      tiBlockNumber ti \<noteq> blockNumber \<or> tiRound ti < r \<or>
      (tiRound ti = r \<and> stepNum (tiStep ti) < stepNum step))"

text \<open>Rounds are \<open>int64\<close> in the source. The one place where the source computes with a
  round is \<open>ti.Round+1\<close> in \<open>handleTimeout\<close>; the sum of two \<open>int64\<close> wraps around.\<close>

definition int64_add :: "int \<Rightarrow> int \<Rightarrow> int" where
  "int64_add a b = sint (word_of_int (a + b) :: 64 word)"

definition handleTimeout :: "timeoutInfo \<Rightarrow> core \<Rightarrow> fatal + core" where
  "handleTimeout ti c =
     (if staleTimeout ti c then Inr c
      else (case tiStep ti of
              RoundStepNewHeight \<Rightarrow> enterNewRound (tiBlockNumber ti) 0 c
            | RoundStepNewRound \<Rightarrow> Inr (enterPropose (tiBlockNumber ti) 0 c)
            | RoundStepPropose \<Rightarrow> Inr (enterPrevote (tiBlockNumber ti) (tiRound ti) c)
            | RoundStepPrevoteWait \<Rightarrow> Inr (enterPrecommit (tiBlockNumber ti) (tiRound ti) c)
            | RoundStepPrecommitWait \<Rightarrow>
                enterNewRound (tiBlockNumber ti) (int64_add (tiRound ti) 1)
                  (enterPrecommit (tiBlockNumber ti) (tiRound ti) c)
            | _ \<Rightarrow> Inl PanicInvalidTimeoutStep))"

section \<open>RLP decoding of a message\<close>

text \<open>Modelled from the spec: the decoder of the \<open>rlp\<close> package is not among the sources.
  It reads the Ethereum RLP format and accepts canonical encodings only: no leading zero
  in a size or an integer, no long form for a short size, no string header for a single
  byte below 128. An error of the decoder is \<open>None\<close>.\<close>

datatype rlpHead = HByte byte | HString nat | HList nat

definition readSize :: "nat \<Rightarrow> bytes \<Rightarrow> (nat \<times> bytes) option" where
  "readSize k inp =
     (if length inp < k then None
      else if hd (take k inp) = 0 then None
      else if be_nat (take k inp) < 56 then None
      else Some (be_nat (take k inp), drop k inp))"

definition readKind :: "bytes \<Rightarrow> (rlpHead \<times> bytes) option" where
  "readKind inp =
     (case inp of
        [] \<Rightarrow> None
      | b # rest \<Rightarrow>
          if unat b < 128 then Some (HByte b, rest)
          else if unat b < 184 then Some (HString (unat b - 128), rest)
          else if unat b < 192
          then (case readSize (unat b - 183) rest of
                  None \<Rightarrow> None | Some (n, rest') \<Rightarrow> Some (HString n, rest'))
          else if unat b < 248 then Some (HList (unat b - 192), rest)
          else (case readSize (unat b - 247) rest of
                  None \<Rightarrow> None | Some (n, rest') \<Rightarrow> Some (HList n, rest')))"

text \<open>A byte string (\<open>[]byte\<close>).\<close>

definition rlp_decode_bytes :: "bytes \<Rightarrow> (bytes \<times> bytes) option" where
  "rlp_decode_bytes inp =
     (case readKind inp of
        None \<Rightarrow> None
      | Some (HByte b, rest) \<Rightarrow> Some ([b], rest)
      | Some (HString n, rest) \<Rightarrow>
          if length rest < n then None
          else if n = 1 \<and> unat (hd rest) < 128 then None
          else Some (take n rest, drop n rest)
      | Some (HList n, rest) \<Rightarrow> None)"

text \<open>An unsigned integer of 64 bits (\<open>uint64\<close>).\<close>

definition rlp_decode_uint :: "bytes \<Rightarrow> (64 word \<times> bytes) option" where
  "rlp_decode_uint inp =
     (case readKind inp of
        None \<Rightarrow> None
      | Some (HByte b, rest) \<Rightarrow> if b = 0 then None else Some (ucast b, rest)
      | Some (HString n, rest) \<Rightarrow>
          if 8 < n then None
          else if length rest < n then None
          else if n = 0 then Some (0, rest)
          else if hd rest = 0 then None
          else if n = 1 \<and> unat (hd rest) < 128 then None
          else Some (of_nat (be_nat (take n rest)), drop n rest)
      | Some (HList n, rest) \<Rightarrow> None)"

text \<open>A byte array of 20 bytes (\<open>common.Address\<close>): the string must have that length.\<close>

definition rlp_decode_address :: "bytes \<Rightarrow> (address \<times> bytes) option" where
  "rlp_decode_address inp =
     (case readKind inp of
        None \<Rightarrow> None
      | Some (HByte b, rest) \<Rightarrow> None
      | Some (HString n, rest) \<Rightarrow>
          if n \<noteq> 20 then None
          else if length rest < n then None
          else Some (bytes_address (take n rest), drop n rest)
      | Some (HList n, rest) \<Rightarrow> None)"

text \<open>\<open>DecodeRLP\<close>: the stream must hold a list; its five elements are decoded into the
  fields of the anonymous struct, in order; the list must end there; the fields are then
  copied into the message. The result is the message and the rest of the stream.\<close>

definition DecodeRLP :: "bytes \<Rightarrow> (message \<times> bytes) option" where
  "DecodeRLP inp =
     (case readKind inp of
        Some (HList n, rest) \<Rightarrow>
          if length rest < n then None
          else
            (case rlp_decode_uint (take n rest) of
               None \<Rightarrow> None
             | Some (code, r1) \<Rightarrow>
                 (case rlp_decode_bytes r1 of
                    None \<Rightarrow> None
                  | Some (msg, r2) \<Rightarrow>
                      (case rlp_decode_address r2 of
                         None \<Rightarrow> None
                       | Some (addr, r3) \<Rightarrow>
                           (case rlp_decode_bytes r3 of
                              None \<Rightarrow> None
                            | Some (sig, r4) \<Rightarrow>
                                (case rlp_decode_bytes r4 of
                                   None \<Rightarrow> None
                                 | Some (seal, r5) \<Rightarrow>
                                     if r5 \<noteq> [] then None
                                     else Some (\<lparr>Code = code, Msg = msg, Address = addr,
                                                 Signature = sig, CommittedSeal = seal\<rparr>,
                                                drop n rest))))))
      | _ \<Rightarrow> None)"

section \<open>Validator set of a height (backend/staking/staking\_validators.go)\<close>

text \<open>The header of a block as \<open>GetValSet\<close> reads it, the chain reader, and the library
  functions applied to the header: its hash, the extraction of the consensus extra-data
  (of which the field \<open>ValidatorAdds\<close> is read), and the RLP decoding of the address
  list. They are parameters of the model.\<close>

record header =
  hNumber :: "64 word"
  hExtra :: bytes

record tendermintExtra =
  ValidatorAdds :: bytes

record chainExt =
  GetHeaderByNumber :: "64 word \<Rightarrow> header option"
  headerHash :: "header \<Rightarrow> hash"
  ExtractTendermintExtra :: "header \<Rightarrow> libError + tendermintExtra"
  decodeAddresses :: "bytes \<Rightarrow> libError + address list"

record StakingValidator =
  Epoch :: "64 word"

text \<open>\<open>number.Uint64()\<close> and \<open>number.Int64()\<close> of a \<open>*big.Int\<close>: the low 64 bits of the
  absolute value; and those bits read as \<open>int64\<close>, negated (as \<open>int64\<close>, so with
  wrap-around) when the number is negative.\<close>

definition Uint64 :: "int \<Rightarrow> 64 word" where
  "Uint64 n = word_of_int \<bar>n\<bar>"

definition Int64 :: "int \<Rightarrow> int" where
  "Int64 n =
     (let v = (word_of_int \<bar>n\<bar> :: 64 word)
      in sint (if n < 0 then - v else v))"

text \<open>Modelled from the spec: \<open>utils.GetCheckpointNumber\<close> is not among the sources. "For
  height H, checkpoint C = H - (H mod Epoch)", on \<open>uint64\<close>, where a remainder by zero
  panics.\<close>

definition GetCheckpointNumber :: "64 word \<Rightarrow> 64 word \<Rightarrow> fatal + 64 word" where
  "GetCheckpointNumber epoch blockNumber =
     (if epoch = 0 then Inl PanicDivideByZero
      else Inr (blockNumber - blockNumber mod epoch))"

text \<open>\<open>GetValSet\<close> returns a validator set together with an error (\<open>None\<close> for nil).\<close>

definition GetValSet ::
  "chainExt \<Rightarrow> StakingValidator \<Rightarrow> int \<Rightarrow> fatal + (validatorSet \<times> error option)" where
  "GetValSet chainReader v number =
     (let blockNumber = Int64 number in
      case GetCheckpointNumber (Epoch v) (Uint64 number) of
        Inl f \<Rightarrow> Inl f
      | Inr checkPoint \<Rightarrow>
          let valSet = NewSet [] RoundRobin blockNumber in
          (case GetHeaderByNumber chainReader checkPoint of
             None \<Rightarrow> Inr (valSet, Some ErrUnknownBlock)
           | Some hdr \<Rightarrow>
               if headerHash chainReader hdr = 0 then Inr (valSet, Some ErrUnknownBlock)
               else (case ExtractTendermintExtra chainReader hdr of
                       Inl err \<Rightarrow> Inr (valSet, Some (ErrLib err))
                     | Inr extra \<Rightarrow>
                         if length (ValidatorAdds extra) = 0
                         then Inr (valSet, Some ErrEmptyValSet)
                         else (case decodeAddresses chainReader (ValidatorAdds extra) of
                                 Inl err \<Rightarrow> Inr (valSet, Some (ErrLib err))
                               | Inr validatorAdds \<Rightarrow>
                                   Inr (NewSet validatorAdds RoundRobin blockNumber,
                                        None)))))"

section \<open>A four-validator node, for concrete runs\<close>

text \<open>The setting of the spec's scenarios: four validators (so f = 1 and Q = 3), the
  first of them this node and the proposer of round 0, at height 1.\<close>

definition exValSet :: validatorSet where
  "exValSet = NewSet [1, 2, 3, 4] RoundRobin 1"

definition exConfig :: config where
  "exConfig = \<lparr>TimeoutPropose = 3000, TimeoutProposeDelta = 500,
               TimeoutPrevote = 1000, TimeoutPrevoteDelta = 500,
               TimeoutPrecommit = 1000, TimeoutPrecommitDelta = 500\<rparr>"

definition exBlock :: "hash \<Rightarrow> block" where
  "exBlock h = \<lparr>bNumber = 1, bHash = h\<rparr>"

text \<open>Height 1, round 0, just started: nothing received, nothing locked.\<close>

definition exState0 :: roundState where
  "exState0 =
     \<lparr>BlockNumber = 1, Round = 0, Step = RoundStepNewHeight, ProposalReceived = None,
      LockedRound = - 1, LockedBlock = None, ValidRound = - 1, ValidBlock = None,
      Block = Some (exBlock 9), PrevotesReceived = [], PrecommitsReceived = []\<rparr>"

text \<open>Height 1, round 1, step Prevote, locked in round 0 on the block of hash 5: the
  state of validator V1 in the spec's scenario 3.\<close>

definition exState1 :: roundState where
  "exState1 =
     \<lparr>BlockNumber = 1, Round = 1, Step = RoundStepPrevote, ProposalReceived = None,
      LockedRound = 0, LockedBlock = Some (exBlock 5), ValidRound = 0,
      ValidBlock = Some (exBlock 5), Block = Some (exBlock 9),
      PrevotesReceived = [], PrecommitsReceived = []\<rparr>"

definition exCore :: "roundState \<Rightarrow> core" where
  "exCore st =
     \<lparr>currentState = st, valSet = exValSet, backendAddress = 1, coreConfig = exConfig,
      scheduled = [], sent = [], gossiped = [], committed = []\<rparr>"

text \<open>Toy stand-ins for the libraries: a vote payload is the round alone (a vote whose
  hash pointer is nil) or the round and the hash; a proposal payload is the round, the POL
  round as a signed byte, and the hash of its block; the signature is the signer.\<close>

definition exDecodeVote :: "bytes \<Rightarrow> libError + Vote" where
  "exDecodeVote bs =
     (case bs of
        [r] \<Rightarrow> Inr \<lparr>vBlockHash = None, vRound = uint r, vBlockNumber = 1\<rparr>
      | [r, h] \<Rightarrow> Inr \<lparr>vBlockHash = Some (ucast h), vRound = uint r, vBlockNumber = 1\<rparr>
      | _ \<Rightarrow> Inl (LibError 1))"

definition exDecodeProposal :: "bytes \<Rightarrow> libError + Proposal" where
  "exDecodeProposal bs =
     (case bs of
        [r, p, h] \<Rightarrow>
          Inr \<lparr>pBlock = Some (exBlock (ucast h)), pRound = uint r, POLRound = sint p\<rparr>
      | _ \<Rightarrow> Inl (LibError 2))"

definition exSigToAddr :: "bytes \<Rightarrow> bytes \<Rightarrow> libError + address" where
  "exSigToAddr payload sig = (case sig of [a] \<Rightarrow> Inr (ucast a) | _ \<Rightarrow> Inl (LibError 3))"

definition exExt :: ext where
  "exExt = \<lparr>decodeVote = exDecodeVote, decodeProposal = exDecodeProposal,
            SigToAddr = exSigToAddr\<rparr>"

definition exMsg :: "64 word \<Rightarrow> bytes \<Rightarrow> byte \<Rightarrow> message" where
  "exMsg code payload sender =
     \<lparr>Code = code, Msg = payload, Address = ucast sender, Signature = [sender],
      CommittedSeal = []\<rparr>"

text \<open>Round 0 of height 1 at step Prevote, nothing locked, where validators 2, 3 and 4
  have prevoted nil: the prevotes of round 0 have a two-thirds majority for \<open>H_nil\<close>
  (the spec's scenario 2, after the propose timeout).\<close>

definition exNilPolka :: roundState where
  "exNilPolka =
     exState0\<lparr>Step := RoundStepPrevote,
       PrevotesReceived :=
         [(0, \<lparr>vsValSet = exValSet,
               votes = [(2, emptyBlockHash), (3, emptyBlockHash), (4, emptyBlockHash)]\<rparr>)]\<rparr>"

text \<open>Round 1 of height 1 with validators 2 and 3 having prevoted the block of hash 7, without
  and with the proposal for that block received: one more prevote for it makes the
  two-thirds majority (the spec's scenario 3, seen from validator V1).\<close>

definition exTwoPrevotes :: roundState where
  "exTwoPrevotes =
     exState1\<lparr>PrevotesReceived := [(1, \<lparr>vsValSet = exValSet, votes = [(2, 7), (3, 7)]\<rparr>)]\<rparr>"

definition exTwoPrevotesProposal :: roundState where
  "exTwoPrevotesProposal =
     exTwoPrevotes\<lparr>ProposalReceived :=
       Some \<lparr>pBlock = Some (exBlock 7), pRound = 1, POLRound = - 1\<rparr>\<rparr>"

text \<open>A chain that holds the header of block 20 only, whose extra-data lists one byte per
  validator, with epochs of 10 blocks.\<close>

definition exChain :: chainExt where
  "exChain =
     \<lparr>GetHeaderByNumber =
        (\<lambda>n. if n = 20 then Some \<lparr>hNumber = 20, hExtra = [1, 2, 3, 4]\<rparr> else None),
      headerHash = (\<lambda>h. 11),
      ExtractTendermintExtra = (\<lambda>h. Inr \<lparr>ValidatorAdds = hExtra h\<rparr>),
      decodeAddresses = (\<lambda>bs. Inr (map ucast bs))\<rparr>"

text \<open>A prevote message as it goes on the wire.\<close>

definition exMessage :: message where
  "exMessage = \<lparr>Code = 1, Msg = [1, 7], Address = 4, Signature = [200], CommittedSeal = []\<rparr>"

section \<open>Unfolding rules\<close>

lemmas ex_defs = exValSet_def exConfig_def exBlock_def exState0_def exState1_def exCore_def
  exDecodeVote_def exDecodeProposal_def exSigToAddr_def exExt_def exMsg_def NewSet_def

lemmas valset_defs = GetByAddress_def GetProposer_def IsProposer_def CalcProposer_def
  proposerIndex_def F_def Q_def

lemmas voteset_defs = newVoteSet_def countHash_def TwoThirdMajority_def HasTwoThirdAny_def
  Admit_def

lemmas state_defs = UpdateRoundStep_def SetValidRoundAndBlock_def SetProposalReceived_def
  Unlock_def GetPrevotesByRound_def GetPrecommitsByRound_def IsProposalComplete_def
  voteHash_def addPrevote_def addPrecommit_def

lemmas core_defs = ProposeTimeout_def PrevoteTimeout_def PrecommitTimeout_def
  ScheduleTimeout_def SendPropose_def blockHashOf_def SendVote_def updState_def

lemmas enter_defs = defaultDoPrevote_def enterPrevote_def defaultDecideProposal_def
  enterPropose_def enterNewRound_def enterPrevoteWait_def enterPrecommit_def
  enterPrecommitWait_def enterCommit_def

section \<open>Entering precommit\<close>

text \<open>Whatever the height, the round and the core, \<open>enterPrecommit\<close> returns the core
  it was given.\<close>

lemma enterPrecommit_identity: "enterPrecommit blockNumber r c = c"
  by (simp add: enterPrecommit_def)

text \<open>Claim C1 says that \<open>enterPrecommit(h, r)\<close> runs the precommit algorithm: on a
  two-thirds majority of prevotes for \<open>H_nil\<close> the node broadcasts a precommit for
  \<open>H_nil\<close>, and in every case the step becomes Precommit. The function in the source has
  an empty body. Run in round 0 of height 1, at step Prevote, with a two-thirds majority
  of prevotes for \<open>H_nil\<close> in round 0, it returns the core it was given: the step is
  still Prevote and nothing was broadcast.\<close>

theorem enterPrecommit_stub_at_nil_polka:
  "map_option TwoThirdMajority (GetPrevotesByRound 0 exNilPolka) = Some (Some emptyBlockHash)
   \<and> enterPrecommit 1 0 (exCore exNilPolka) = exCore exNilPolka
   \<and> Step (currentState (enterPrecommit 1 0 (exCore exNilPolka))) = RoundStepPrevote
   \<and> sent (enterPrecommit 1 0 (exCore exNilPolka)) = []"
  by (simp add: exNilPolka_def ex_defs valset_defs voteset_defs state_defs enter_defs
      emptyBlockHash_def)

section \<open>Proposals\<close>

text \<open>The POL round test of \<open>verifyProposal\<close> asks for a POL round that is below -1 and
  at least 0 at once, so no proposal is ever rejected for its POL round.\<close>

lemma verifyProposal_never_POLRound:
  "verifyProposal x c p m \<noteq> Inr (Some ErrInvalidProposalPOLRound)"
  by (simp add: verifyProposal_def split: sum.splits option.splits)

text \<open>A proposal for the current height and round, signed by the proposer, with a block
  whose hash is not zero, is stored when none was received before, whatever its POL round.\<close>

lemma handlePropose_ignores_POLRound:
  assumes "decodeProposal x (Msg msg) = Inr proposal"
    and "pBlock proposal = Some b"
    and "bHash b \<noteq> emptyBlockHash"
    and "ProposalReceived (currentState c) = None"
    and "bNumber b = BlockNumber (currentState c)"
    and "pRound proposal = Round (currentState c)"
    and "GetAddressFromSignature x msg = Inr signer"
    and "GetProposer (valSet c) = Some signer"
  shows "handlePropose x msg c =
           Inr (None, updState (SetProposalReceived (Some proposal)) c)"
  using assms
  by (simp add: handlePropose_def verifyProposal_def blockHashOf_def)

text \<open>Claim C2 says that a proposal whose POL round is below -1, or is at least 0 and not
  below the proposal's round, is rejected with \<open>ErrInvalidProposalPOLRound\<close> and not
  stored. At height 1, round 0, with no proposal received yet, the proposer (validator 1)
  sends a proposal for round 0 with POL round -2, and one with POL round 3: in both runs
  \<open>handlePropose\<close> returns no error and stores the proposal.\<close>

theorem handlePropose_accepts_bad_POLRound:
  "handlePropose exExt (exMsg msgPropose [0, 254, 7] 1) (exCore exState0) =
     Inr (None,
          updState (SetProposalReceived
                      (Some \<lparr>pBlock = Some (exBlock 7), pRound = 0, POLRound = - 2\<rparr>))
            (exCore exState0))
   \<and> handlePropose exExt (exMsg msgPropose [0, 3, 7] 1) (exCore exState0) =
     Inr (None,
          updState (SetProposalReceived
                      (Some \<lparr>pBlock = Some (exBlock 7), pRound = 0, POLRound = 3\<rparr>))
            (exCore exState0))"
  by (simp add: handlePropose_def verifyProposal_def GetAddressFromSignature_def
      ex_defs valset_defs core_defs state_defs emptyBlockHash_def msgPropose_def)

text \<open>What the node holds afterwards: a received proposal whose POL round is -2.\<close>

theorem handlePropose_accepts_bad_POLRound_witness:
  "\<exists>c'. handlePropose exExt (exMsg msgPropose [0, 254, 7] 1) (exCore exState0) = Inr (None, c')
        \<and> map_option POLRound (ProposalReceived (currentState c')) = Some (- 2)"
  using handlePropose_accepts_bad_POLRound
  by (simp add: updState_def SetProposalReceived_def)

section \<open>Entering a new round\<close>

text \<open>The proposer index after entering a higher round: with distinct validators and the
  proposer at index i, \<open>enterNewRound(h, r)\<close> leaves the proposer at index
  (i + r) mod |set|.\<close>

lemma index_of_bound: "index_of a xs = Some i \<Longrightarrow> i < length xs"
  by (induction xs arbitrary: i) (auto split: if_splits option.splits)

lemma index_of_nth:
  "distinct xs \<Longrightarrow> k < length xs \<Longrightarrow> index_of (xs ! k) xs = Some k"
proof (induction xs arbitrary: k)
  case Nil
  then show ?case by simp
next
  case (Cons x xs)
  show ?case
  proof (cases k)
    case 0
    then show ?thesis by simp
  next
    case (Suc j)
    then have "xs ! j \<in> set xs" and "index_of (xs ! j) xs = Some j"
      using Cons by simp_all
    then show ?thesis
      using Cons.prems Suc by auto
  qed
qed

lemma enterPrevote_valSet [simp]: "valSet (enterPrevote bn r c) = valSet c"
  by (simp add: enterPrevote_def defaultDoPrevote_def SendVote_def updState_def Let_def
      split: option.splits)

lemma enterPropose_valSet [simp]: "valSet (enterPropose bn r c) = valSet c"
  by (simp add: enterPropose_def ScheduleTimeout_def SendPropose_def updState_def Let_def)

lemma enterNewRound_proposer_index:
  assumes d: "distinct (validators (valSet c))"
    and i: "proposerIndex (valSet c) = Some i"
    and h: "BlockNumber (currentState c) = blockNumber"
    and r: "Round (currentState c) < r"
  shows "\<exists>c'. enterNewRound blockNumber r c = Inr c' \<and>
           proposerIndex (valSet c') =
             Some (nat ((int i + r) mod int (length (validators (valSet c)))))"
proof -
  let ?vs = "valSet c"
  let ?n = "length (validators ?vs)"
  let ?k = "nat ((int i + r) mod int ?n)"
  obtain a where a: "GetProposer ?vs = Some a" and ia: "index_of a (validators ?vs) = Some i"
    using i by (auto simp add: proposerIndex_def GetByAddress_def split: option.splits)
  have n: "0 < ?n"
    using index_of_bound [OF ia] by auto
  then have k: "?k < ?n"
    by (simp add: nat_less_iff)
  have "proposerIndex (CalcProposer a r ?vs) = Some ?k"
    using ia index_of_nth [OF d k]
    by (simp add: proposerIndex_def CalcProposer_def GetByAddress_def GetProposer_def)
  then show ?thesis
    using a h r by (auto simp add: enterNewRound_def updState_def Let_def)
qed

text \<open>Claim C3 says that \<open>enterNewRound(h, r)\<close> with r above the current round advances the
  proposer by r minus the current round. The source hands the round r itself to
  \<open>CalcProposer\<close>, together with the current proposer. Started at height 1 with four
  validators, the node enters round 0 (proposer index 0), then round 1 (index 1), then
  round 2: the proposer index becomes 3 = (1 + 2) mod 4 where the claim gives
  2 = (1 + (2 - 1)) mod 4, and the validator of index 2 is skipped.\<close>

theorem enterNewRound_skips_validator:
  "(case enterNewRound 1 0 (exCore exState0) of
      Inl f \<Rightarrow> False
    | Inr c0 \<Rightarrow>
        proposerIndex (valSet c0) = Some 0 \<and> Round (currentState c0) = 0 \<and>
        (case enterNewRound 1 1 c0 of
           Inl f \<Rightarrow> False
         | Inr c1 \<Rightarrow>
             proposerIndex (valSet c1) = Some 1 \<and> Round (currentState c1) = 1 \<and>
             (case enterNewRound 1 2 c1 of
                Inl f \<Rightarrow> False
              | Inr c2 \<Rightarrow>
                  proposerIndex (valSet c2) = Some 3 \<and> Round (currentState c2) = 2)))"
  by (simp add: ex_defs valset_defs core_defs state_defs enter_defs)

text \<open>The three calls return, and the last leaves the proposer at index 3.\<close>

theorem enterNewRound_skips_validator_witness:
  "\<exists>c0 c1 c2. enterNewRound 1 0 (exCore exState0) = Inr c0 \<and> enterNewRound 1 1 c0 = Inr c1
        \<and> enterNewRound 1 2 c1 = Inr c2 \<and> proposerIndex (valSet c2) = Some 3"
  using enterNewRound_skips_validator
  by (auto split: sum.splits)

section \<open>The timeout dispatcher\<close>

text \<open>Within the \<open>int64\<close> range and below its largest value, the wrapping sum with 1 is
  the sum; at the largest value it wraps to the smallest.\<close>

lemma int64_add_1:
  assumes "- (2 ^ 63) \<le> r" and "r < 2 ^ 63 - 1"
  shows "int64_add r 1 = r + 1"
proof -
  have "- (2 ^ 63) \<le> r + 1" and "r + 1 < 2 ^ 63"
    using assms by simp_all
  then have "signed_take_bit 63 (r + 1) = r + 1"
    by (simp add: signed_take_bit_int_eq_self)
  then show ?thesis
    unfolding int64_add_def by (simp only: signed_of_int) simp
qed

lemma int64_add_1_wraps: "int64_add (2 ^ 63 - 1) 1 = - (2 ^ 63)"
  by (simp add: int64_add_def)

text \<open>Claim C4: a timeout for another height, for an earlier round, or for an earlier step
  of the current round is stale, and \<open>handleTimeout\<close> then returns the core unchanged (no
  transition, nothing sent, nothing armed). Any other timeout is dispatched on its step:
  NewHeight enters round 0, NewRound enters propose of round 0, Propose enters prevote of
  the timeout's round, PrevoteWait enters precommit of that round, PrecommitWait enters
  precommit of that round and then the next round. (A timeout that is not stale carries
  the current height.) The next round is r + 1 for a round r of the \<open>int64\<close> range below
  its largest value, where the source's sum does not wrap; this is asked of a
  PrecommitWait timeout only. A timeout of any other step makes the dispatcher panic; the
  node arms none.\<close>

theorem handleTimeout_dispatch:
  assumes "tiStep ti = RoundStepPrecommitWait \<longrightarrow>
             - (2 ^ 63) \<le> tiRound ti \<and> tiRound ti < 2 ^ 63 - 1"
  shows "handleTimeout ti c =
     (if tiBlockNumber ti \<noteq> BlockNumber (currentState c) \<or>
         tiRound ti < Round (currentState c) \<or>
         (tiRound ti = Round (currentState c) \<and>
          stepNum (tiStep ti) < stepNum (Step (currentState c)))
      then Inr c
      else if tiStep ti = RoundStepNewHeight
      then enterNewRound (BlockNumber (currentState c)) 0 c
      else if tiStep ti = RoundStepNewRound
      then Inr (enterPropose (BlockNumber (currentState c)) 0 c)
      else if tiStep ti = RoundStepPropose
      then Inr (enterPrevote (BlockNumber (currentState c)) (tiRound ti) c)
      else if tiStep ti = RoundStepPrevoteWait
      then Inr (enterPrecommit (BlockNumber (currentState c)) (tiRound ti) c)
      else if tiStep ti = RoundStepPrecommitWait
      then enterNewRound (BlockNumber (currentState c)) (tiRound ti + 1)
             (enterPrecommit (BlockNumber (currentState c)) (tiRound ti) c)
      else Inl PanicInvalidTimeoutStep)"
proof (cases "tiStep ti")
  case RoundStepPrecommitWait
  then have "int64_add (tiRound ti) 1 = tiRound ti + 1"
    using assms int64_add_1 [of "tiRound ti"] by simp
  then show ?thesis
    using RoundStepPrecommitWait by (simp add: handleTimeout_def staleTimeout_def)
qed (simp_all add: handleTimeout_def staleTimeout_def)

text \<open>The spec's scenario 5: the timer of (1, 0, Propose) fires when the state is at
  (1, 0, Prevote), and nothing happens. And a timeout of (1, 1, PrecommitWait) at
  (1, 1, Prevote) is not stale: the node goes on to round 2.\<close>

theorem handleTimeout_dispatch_witness:
  "handleTimeout
     \<lparr>Duration = 3000, tiBlockNumber = 1, tiRound = 0, tiStep = RoundStepPropose\<rparr>
     (exCore (exState0\<lparr>Step := RoundStepPrevote\<rparr>)) =
     Inr (exCore (exState0\<lparr>Step := RoundStepPrevote\<rparr>))
   \<and> handleTimeout
       \<lparr>Duration = 1500, tiBlockNumber = 1, tiRound = 1, tiStep = RoundStepPrecommitWait\<rparr>
       (exCore exState1) = enterNewRound 1 2 (exCore exState1)"
proof -
  let ?t1 = "\<lparr>Duration = 3000, tiBlockNumber = 1, tiRound = 0, tiStep = RoundStepPropose\<rparr>"
  let ?t2 = "\<lparr>Duration = 1500, tiBlockNumber = 1, tiRound = 1,
               tiStep = RoundStepPrecommitWait\<rparr>"
  have b1: "tiStep ?t1 = RoundStepPrecommitWait \<longrightarrow>
              - (2 ^ 63) \<le> tiRound ?t1 \<and> tiRound ?t1 < 2 ^ 63 - 1"
    by simp
  have b2: "tiStep ?t2 = RoundStepPrecommitWait \<longrightarrow>
              - (2 ^ 63) \<le> tiRound ?t2 \<and> tiRound ?t2 < 2 ^ 63 - 1"
    by simp
  show ?thesis
    using handleTimeout_dispatch [OF b1, of "exCore (exState0\<lparr>Step := RoundStepPrevote\<rparr>)"]
          handleTimeout_dispatch [OF b2, of "exCore exState1"]
    by (simp add: ex_defs enterPrecommit_def)
qed

section \<open>The default prevote\<close>

text \<open>When its guard lets it through, \<open>enterPrevote\<close> sends what \<open>defaultDoPrevote\<close>
  sends and nothing more, and leaves the state at step Prevote of the round entered.\<close>

lemma enterPrevote_runs_selector:
  assumes "BlockNumber (currentState c) = blockNumber"
    and "Round (currentState c) < r \<or>
         (Round (currentState c) = r \<and> stepNum (Step (currentState c)) < stepNum RoundStepPrevote)"
  shows "sent (enterPrevote blockNumber r c) = sent (defaultDoPrevote r c)"
    and "Round (currentState (enterPrevote blockNumber r c)) = r"
    and "Step (currentState (enterPrevote blockNumber r c)) = RoundStepPrevote"
  using assms
  by (auto simp add: enterPrevote_def defaultDoPrevote_def SendVote_def updState_def
      UpdateRoundStep_def Let_def split: option.splits)

text \<open>Claim C7: \<open>defaultDoPrevote\<close> broadcasts exactly one message, a prevote for the round
  at the current height, and changes nothing else. The vote is for the locked block if
  the locked round is not -1; otherwise for \<open>H_nil\<close> if no proposal was received;
  otherwise for the block of the received proposal.\<close>

theorem defaultDoPrevote_selects:
  "defaultDoPrevote r c =
     c\<lparr>sent := sent c @
         [OutVote msgPrevote
            \<lparr>vBlockHash =
               Some (if LockedRound (currentState c) \<noteq> - 1
                     then blockHashOf (LockedBlock (currentState c))
                     else (case ProposalReceived (currentState c) of
                             None \<Rightarrow> emptyBlockHash
                           | Some p \<Rightarrow> blockHashOf (pBlock p))),
             vRound = r, vBlockNumber = BlockNumber (currentState c)\<rparr>]\<rparr>"
  by (simp add: defaultDoPrevote_def SendVote_def blockHashOf_def split: option.splits)

text \<open>The three rules at work: a node locked on the block of hash 5; a node with no lock
  and no proposal; a node with no lock that received a proposal for the block of hash 7.\<close>

theorem defaultDoPrevote_selects_witness:
  "sent (defaultDoPrevote 1 (exCore exState1)) =
     [OutVote msgPrevote \<lparr>vBlockHash = Some 5, vRound = 1, vBlockNumber = 1\<rparr>]
   \<and> sent (defaultDoPrevote 0 (exCore exState0)) =
     [OutVote msgPrevote \<lparr>vBlockHash = Some emptyBlockHash, vRound = 0, vBlockNumber = 1\<rparr>]
   \<and> sent (defaultDoPrevote 0
        (exCore (exState0\<lparr>ProposalReceived :=
                   Some \<lparr>pBlock = Some (exBlock 7), pRound = 0, POLRound = - 1\<rparr>\<rparr>))) =
     [OutVote msgPrevote \<lparr>vBlockHash = Some 7, vRound = 0, vBlockNumber = 1\<rparr>]"
  using defaultDoPrevote_selects [of 1 "exCore exState1"]
        defaultDoPrevote_selects [of 0 "exCore exState0"]
        defaultDoPrevote_selects
          [of 0 "exCore (exState0\<lparr>ProposalReceived :=
                   Some \<lparr>pBlock = Some (exBlock 7), pRound = 0, POLRound = - 1\<rparr>\<rparr>)"]
  by (simp add: ex_defs blockHashOf_def)

section \<open>Votes without a block hash\<close>

text \<open>Claim C8: when the payload of a message decodes to a vote whose block hash is absent
  (a nil pointer), the prevote handler and the precommit handler panic, whatever the
  state, the height and the round of the vote; so does \<open>handleMsg\<close> for a message of
  either code. The message is not dropped with the node carrying on.\<close>

theorem nil_block_hash_is_fatal:
  assumes "decodeVote x (Msg msg) = Inr vote" and "vBlockHash vote = None"
  shows "handlePrevote x msg c = Inl PanicNilBlockHash
       \<and> handlePrecommit x msg c = Inl PanicNilBlockHash
       \<and> (Code msg = msgPrevote \<or> Code msg = msgPrecommit
            \<longrightarrow> handleMsg x msg c = Inl PanicNilBlockHash)"
  using assms
  by (simp add: handlePrevote_def handlePrecommit_def handleMsg_def
      msgPropose_def msgPrevote_def msgPrecommit_def)

theorem nil_block_hash_is_fatal_witness:
  "decodeVote exExt (Msg (exMsg msgPrecommit [0] 2)) =
     Inr \<lparr>vBlockHash = None, vRound = 0, vBlockNumber = 1\<rparr>
   \<and> handlePrevote exExt (exMsg msgPrecommit [0] 2) (exCore exState0) = Inl PanicNilBlockHash
   \<and> handlePrecommit exExt (exMsg msgPrecommit [0] 2) (exCore exState0) = Inl PanicNilBlockHash
   \<and> handleMsg exExt (exMsg msgPrecommit [0] 2) (exCore exState0) = Inl PanicNilBlockHash"
proof -
  have d: "decodeVote exExt (Msg (exMsg msgPrecommit [0] 2)) =
             Inr \<lparr>vBlockHash = None, vRound = 0, vBlockNumber = 1\<rparr>"
    by (simp add: ex_defs)
  have n: "vBlockHash \<lparr>vBlockHash = None, vRound = 0, vBlockNumber = 1\<rparr> = None"
    by simp
  have c: "Code (exMsg msgPrecommit [0] 2) = msgPrecommit"
    by (simp add: ex_defs)
  show ?thesis
    using nil_block_hash_is_fatal [OF d n, of "exCore exState0"] d c by simp
qed

section \<open>The prevote handler\<close>

text \<open>What the transitions leave alone. The enter functions reached from the prevote
  handler change the round, the step, the timers and the messages sent; the lock, the
  valid block and the received proposal are changed only where stated.\<close>

lemma UpdateRoundStep_keeps [simp]:
  "LockedRound (UpdateRoundStep r s st) = LockedRound st"
  "LockedBlock (UpdateRoundStep r s st) = LockedBlock st"
  "ValidRound (UpdateRoundStep r s st) = ValidRound st"
  "ValidBlock (UpdateRoundStep r s st) = ValidBlock st"
  "ProposalReceived (UpdateRoundStep r s st) = ProposalReceived st"
  "PrevotesReceived (UpdateRoundStep r s st) = PrevotesReceived st"
  "BlockNumber (UpdateRoundStep r s st) = BlockNumber st"
  by (simp_all add: UpdateRoundStep_def)

lemma enterPrevote_keeps [simp]:
  "LockedRound (currentState (enterPrevote bn r c)) = LockedRound (currentState c)"
  "LockedBlock (currentState (enterPrevote bn r c)) = LockedBlock (currentState c)"
  "ValidRound (currentState (enterPrevote bn r c)) = ValidRound (currentState c)"
  "ValidBlock (currentState (enterPrevote bn r c)) = ValidBlock (currentState c)"
  "ProposalReceived (currentState (enterPrevote bn r c)) = ProposalReceived (currentState c)"
  by (simp_all add: enterPrevote_def defaultDoPrevote_def SendVote_def updState_def Let_def
      split: option.splits)

lemma enterPropose_keeps [simp]:
  "LockedRound (currentState (enterPropose bn r c)) = LockedRound (currentState c)"
  "LockedBlock (currentState (enterPropose bn r c)) = LockedBlock (currentState c)"
  "ValidRound (currentState (enterPropose bn r c)) = ValidRound (currentState c)"
  "ValidBlock (currentState (enterPropose bn r c)) = ValidBlock (currentState c)"
  "ProposalReceived (currentState (enterPropose bn r c)) = ProposalReceived (currentState c)"
  by (simp_all add: enterPropose_def ScheduleTimeout_def SendPropose_def updState_def Let_def)

lemma enterNewRound_keeps:
  assumes "enterNewRound bn r c = Inr c'"
  shows "LockedRound (currentState c') = LockedRound (currentState c)"
    and "LockedBlock (currentState c') = LockedBlock (currentState c)"
    and "ProposalReceived (currentState c') = ProposalReceived (currentState c)"
  using assms
  by (auto simp add: enterNewRound_def updState_def SetValidRoundAndBlock_def Let_def
      split: if_splits option.splits)

lemma enterNewRound_returns:
  "GetProposer (valSet c) \<noteq> None \<Longrightarrow> \<exists>c'. enterNewRound bn r c = Inr c'"
  by (auto simp add: enterNewRound_def Let_def split: option.splits)

lemma enterPrevoteWait_keeps:
  assumes "enterPrevoteWait bn r c = Inr c'"
  shows "LockedRound (currentState c') = LockedRound (currentState c)"
    and "LockedBlock (currentState c') = LockedBlock (currentState c)"
    and "ValidRound (currentState c') = ValidRound (currentState c)"
    and "ValidBlock (currentState c') = ValidBlock (currentState c)"
    and "ProposalReceived (currentState c') = ProposalReceived (currentState c)"
  using assms
  by (auto simp add: enterPrevoteWait_def ScheduleTimeout_def updState_def Let_def
      split: if_splits option.splits)

lemma enterPrevoteWait_returns:
  "GetPrevotesByRound r (currentState c) \<noteq> None \<Longrightarrow> \<exists>c'. enterPrevoteWait bn r c = Inr c'"
  by (auto simp add: enterPrevoteWait_def Let_def split: option.splits)

lemma prevoteTransitions_returns:
  assumes "GetProposer (valSet c) \<noteq> None"
    and "GetPrevotesByRound (vRound vote) (currentState c) \<noteq> None"
  shows "\<exists>c'. prevoteTransitions vote pv c = Inr c'"
  using enterNewRound_returns [OF assms(1)] enterPrevoteWait_returns [OF assms(2)]
  by (simp add: prevoteTransitions_def Let_def split: option.splits)

lemma prevoteTransitions_keeps_lock:
  assumes "prevoteTransitions vote pv c = Inr c'"
  shows "LockedRound (currentState c') = LockedRound (currentState c)"
    and "LockedBlock (currentState c') = LockedBlock (currentState c)"
  using assms
  by (auto simp add: prevoteTransitions_def enterPrecommit_def Let_def
      split: if_splits option.splits
      dest: enterNewRound_keeps enterPrevoteWait_keeps)

lemma prevoteTransitions_keeps_valid:
  assumes "prevoteTransitions vote pv c = Inr c'"
    and "vRound vote = Round (currentState c)"
  shows "ValidRound (currentState c') = ValidRound (currentState c)"
    and "ValidBlock (currentState c') = ValidBlock (currentState c)"
    and "ProposalReceived (currentState c') = ProposalReceived (currentState c)"
  using assms
  by (auto simp add: prevoteTransitions_def enterPrecommit_def Let_def
      split: if_splits option.splits
      dest: enterPrevoteWait_keeps)

lemma addPrevote_keeps:
  assumes "addPrevote msg vote vs st = Inr (added, st1)"
  shows "st1 = st\<lparr>PrevotesReceived := PrevotesReceived st1\<rparr>"
  using assms
  by (auto simp add: addPrevote_def Let_def split: sum.splits)


lemma unlockOnPOL_result:
  assumes "LockedRound st \<noteq> - 1 \<longrightarrow> LockedBlock st \<noteq> None"
  shows "unlockOnPOL vote h st =
     Inr (if LockedRound st \<noteq> - 1 \<and> LockedRound st < vRound vote \<and> vRound vote \<le> Round st \<and>
             blockHashOf (LockedBlock st) \<noteq> h
          then Unlock st else st)"
  using assms
  by (auto simp add: unlockOnPOL_def blockHashOf_def Let_def split: option.splits)

lemma updateValidBlock_result:
  assumes "\<forall>p. ProposalReceived st = Some p \<longrightarrow> pBlock p \<noteq> None"
  shows "updateValidBlock vote h st =
     Inr (if h \<noteq> emptyBlockHash \<and> ValidRound st < vRound vote \<and> vRound vote = Round st
          then (case ProposalReceived st of
                  None \<Rightarrow> SetProposalReceived None st
                | Some p \<Rightarrow>
                    if blockHashOf (pBlock p) = h
                    then SetValidRoundAndBlock (vRound vote) (pBlock p) st
                    else SetProposalReceived None st)
          else st)"
  using assms
  by (auto simp add: updateValidBlock_def blockHashOf_def split: option.splits)

lemma prevotePOL_result:
  assumes "LockedRound st \<noteq> - 1 \<longrightarrow> LockedBlock st \<noteq> None"
    and "\<forall>p. ProposalReceived st = Some p \<longrightarrow> pBlock p \<noteq> None"
    and "TwoThirdMajority pv = Some h"
  shows "\<exists>st2. prevotePOL vote pv st = Inr st2 \<and>
     PrevotesReceived st2 = PrevotesReceived st \<and> Round st2 = Round st \<and>
     (if LockedRound st \<noteq> - 1 \<and> LockedRound st < vRound vote \<and> vRound vote \<le> Round st \<and>
         blockHashOf (LockedBlock st) \<noteq> h
      then LockedRound st2 = - 1 \<and> LockedBlock st2 = None
      else LockedRound st2 = LockedRound st \<and> LockedBlock st2 = LockedBlock st) \<and>
     (if h \<noteq> emptyBlockHash \<and> ValidRound st < vRound vote \<and> vRound vote = Round st
      then (case ProposalReceived st of
              None \<Rightarrow> ProposalReceived st2 = None \<and> ValidRound st2 = ValidRound st \<and>
                       ValidBlock st2 = ValidBlock st
            | Some p \<Rightarrow>
                if blockHashOf (pBlock p) = h
                then ValidRound st2 = vRound vote \<and> ValidBlock st2 = pBlock p \<and>
                     ProposalReceived st2 = Some p
                else ProposalReceived st2 = None \<and> ValidRound st2 = ValidRound st \<and>
                     ValidBlock st2 = ValidBlock st)
      else ProposalReceived st2 = ProposalReceived st \<and> ValidRound st2 = ValidRound st \<and>
           ValidBlock st2 = ValidBlock st)"
proof -
  let ?st1 = "if LockedRound st \<noteq> - 1 \<and> LockedRound st < vRound vote \<and> vRound vote \<le> Round st \<and>
             blockHashOf (LockedBlock st) \<noteq> h
          then Unlock st else st"
  have u: "unlockOnPOL vote h st = Inr ?st1"
    by (rule unlockOnPOL_result [OF assms(1)])
  have p1: "\<forall>p. ProposalReceived ?st1 = Some p \<longrightarrow> pBlock p \<noteq> None"
    using assms(2) by (simp add: Unlock_def)
  show ?thesis
    using u updateValidBlock_result [OF p1, of vote h] assms(3)
    by (auto simp add: prevotePOL_def Unlock_def SetProposalReceived_def
        SetValidRoundAndBlock_def split: option.splits)
qed


lemma regossip_keeps [simp]:
  "currentState (regossip msg c) = currentState c"
  "valSet (regossip msg c) = valSet c"
  by (simp_all add: regossip_def)


text \<open>The lock after a newly admitted prevote that makes a two-thirds majority \<open>h_maj\<close>:
  the handler returns without error, and the lock is cleared if the locked round is not
  -1, is below the vote's round, the vote's round is at most the current round, and the
  hash of the locked block is not \<open>h_maj\<close>; it is what it was otherwise.\<close>

lemma handlePrevote_lock_on_majority:
  assumes dec: "decodeVote x (Msg msg) = Inr vote"
    and hash: "vBlockHash vote \<noteq> None"
    and height: "vBlockNumber vote = BlockNumber (currentState c)"
    and add: "addPrevote msg vote (valSet c) (currentState c) = Inr (True, st1)"
    and pv: "GetPrevotesByRound (vRound vote) st1 = Some prevotes"
    and maj: "TwoThirdMajority prevotes = Some h_maj"
    and wfl: "LockedRound (currentState c) \<noteq> - 1 \<longrightarrow> LockedBlock (currentState c) \<noteq> None"
    and wfp: "\<forall>p. ProposalReceived (currentState c) = Some p \<longrightarrow> pBlock p \<noteq> None"
    and hasp: "GetProposer (valSet c) \<noteq> None"
  shows "\<exists>c'. handlePrevote x msg c = Inr (None, c') \<and>
     (if LockedRound (currentState c) \<noteq> - 1 \<and>
         LockedRound (currentState c) < vRound vote \<and>
         vRound vote \<le> Round (currentState c) \<and>
         blockHashOf (LockedBlock (currentState c)) \<noteq> h_maj
      then LockedRound (currentState c') = - 1 \<and> LockedBlock (currentState c') = None
      else LockedRound (currentState c') = LockedRound (currentState c) \<and>
           LockedBlock (currentState c') = LockedBlock (currentState c))"
proof -
  let ?st = "currentState c"
  have k: "st1 = ?st\<lparr>PrevotesReceived := PrevotesReceived st1\<rparr>"
    by (rule addPrevote_keeps [OF add])
  have f: "LockedRound st1 = LockedRound ?st" "LockedBlock st1 = LockedBlock ?st"
    "Round st1 = Round ?st" "ProposalReceived st1 = ProposalReceived ?st"
    by (subst k, simp)+
  have wfl1: "LockedRound st1 \<noteq> - 1 \<longrightarrow> LockedBlock st1 \<noteq> None"
    using wfl f by simp
  have wfp1: "\<forall>p. ProposalReceived st1 = Some p \<longrightarrow> pBlock p \<noteq> None"
    using wfp f by simp
  obtain st2 where r: "prevotePOL vote prevotes st1 = Inr st2"
    and pr: "PrevotesReceived st2 = PrevotesReceived st1"
    and lk: "if LockedRound st1 \<noteq> - 1 \<and> LockedRound st1 < vRound vote \<and>
                vRound vote \<le> Round st1 \<and> blockHashOf (LockedBlock st1) \<noteq> h_maj
             then LockedRound st2 = - 1 \<and> LockedBlock st2 = None
             else LockedRound st2 = LockedRound st1 \<and> LockedBlock st2 = LockedBlock st1"
    using prevotePOL_result [OF wfl1 wfp1 maj, of vote] by blast
  let ?c2 = "regossip msg (c\<lparr>currentState := st2\<rparr>)"
  have p2: "GetProposer (valSet ?c2) \<noteq> None"
    using hasp by simp
  have v2: "GetPrevotesByRound (vRound vote) (currentState ?c2) \<noteq> None"
    using pv pr by (simp add: GetPrevotesByRound_def)
  obtain c3 where t: "prevoteTransitions vote prevotes ?c2 = Inr c3"
    using prevoteTransitions_returns [OF p2 v2] by blast
  have h: "handlePrevote x msg c = Inr (None, c3)"
    using dec hash height add pv r t by (simp add: handlePrevote_def)
  have l3: "LockedRound (currentState c3) = LockedRound st2"
    "LockedBlock (currentState c3) = LockedBlock st2"
    using prevoteTransitions_keeps_lock [OF t] by simp_all
  show ?thesis
    using h lk l3 f by (auto split: if_splits)
qed

text \<open>A vote set exists for the round of an admitted vote, and without a majority the
  block of the POL rules is skipped.\<close>

lemma addPrevote_prevotes_exist:
  assumes "addPrevote msg vote vs st = Inr (added, st1)"
  shows "GetPrevotesByRound (vRound vote) st1 \<noteq> None"
  using assms
  by (auto simp add: addPrevote_def GetPrevotesByRound_def Let_def update_conv'
      split: sum.splits)

lemma prevotePOL_no_majority:
  "TwoThirdMajority pv = None \<Longrightarrow> prevotePOL vote pv st = Inr st"
  by (simp add: prevotePOL_def)

text \<open>Claim C5: the state is taken well formed (a lock names a block, a received proposal
  has a block) and the validator set to have a proposer, so that no nil pointer is read.
  A message whose vote has no block hash makes the handler panic. For every other
  message the handler returns, and in the state it leaves the lock is as follows. If the
  message decodes to a prevote of the current height that is newly admitted, the
  prevotes of its round then have a two-thirds majority \<open>h_maj\<close>, the locked round is
  not -1 and is below the vote's round, the vote's round is at most the current round,
  and the hash of the locked block is not \<open>h_maj\<close>, then the locked round is -1 and the
  locked block is nil. In all other cases (a payload that does not decode, another
  height, a sender outside the validator set, an equivocation, a duplicate, no majority,
  or a majority with one of the conditions failing) the locked round and the locked block
  are what they were.\<close>

theorem handlePrevote_unlock_on_POL:
  assumes wfl: "LockedRound (currentState c) \<noteq> - 1 \<longrightarrow> LockedBlock (currentState c) \<noteq> None"
    and wfp: "\<forall>p. ProposalReceived (currentState c) = Some p \<longrightarrow> pBlock p \<noteq> None"
    and hasp: "GetProposer (valSet c) \<noteq> None"
  shows
    "if (\<exists>vote. decodeVote x (Msg msg) = Inr vote \<and> vBlockHash vote = None)
     then handlePrevote x msg c = Inl PanicNilBlockHash
     else (\<exists>e c'. handlePrevote x msg c = Inr (e, c') \<and>
       (if (\<exists>vote st1 prevotes h_maj.
              decodeVote x (Msg msg) = Inr vote \<and>
              vBlockNumber vote = BlockNumber (currentState c) \<and>
              addPrevote msg vote (valSet c) (currentState c) = Inr (True, st1) \<and>
              GetPrevotesByRound (vRound vote) st1 = Some prevotes \<and>
              TwoThirdMajority prevotes = Some h_maj \<and>
              LockedRound (currentState c) \<noteq> - 1 \<and>
              LockedRound (currentState c) < vRound vote \<and>
              vRound vote \<le> Round (currentState c) \<and>
              blockHashOf (LockedBlock (currentState c)) \<noteq> h_maj)
        then LockedRound (currentState c') = - 1 \<and> LockedBlock (currentState c') = None
        else LockedRound (currentState c') = LockedRound (currentState c) \<and>
             LockedBlock (currentState c') = LockedBlock (currentState c)))"
proof (cases "decodeVote x (Msg msg)")
  case (Inl err)
  then show ?thesis
    by (simp add: handlePrevote_def)
next
  case (Inr vote)
  note dec = Inr
  show ?thesis
  proof (cases "vBlockHash vote = None")
    case True
    then show ?thesis
      using dec by (simp add: handlePrevote_def)
  next
    case False
    note hash = False
    show ?thesis
    proof (cases "vBlockNumber vote = BlockNumber (currentState c)")
      case False
      then show ?thesis
        using dec hash by (simp add: handlePrevote_def)
    next
      case True
      note height = True
      show ?thesis
      proof (cases "addPrevote msg vote (valSet c) (currentState c)")
        case (Inl err)
        then show ?thesis
          using dec hash height by (simp add: handlePrevote_def)
      next
        case (Inr res)
        obtain added st1 where res: "res = (added, st1)"
          by (cases res)
        note add = Inr [unfolded res]
        have k: "st1 = (currentState c)\<lparr>PrevotesReceived := PrevotesReceived st1\<rparr>"
          by (rule addPrevote_keeps [OF add])
        have f: "LockedRound st1 = LockedRound (currentState c)"
          "LockedBlock st1 = LockedBlock (currentState c)"
          by (subst k, simp)+
        show ?thesis
        proof (cases added)
          case False
          then show ?thesis
            using dec hash height add f by (simp add: handlePrevote_def)
        next
          case True
          have addT: "addPrevote msg vote (valSet c) (currentState c) = Inr (True, st1)"
            using add True by simp
          obtain prevotes where pv: "GetPrevotesByRound (vRound vote) st1 = Some prevotes"
            using addPrevote_prevotes_exist [OF addT] by auto
          show ?thesis
          proof (cases "TwoThirdMajority prevotes")
            case None
            have r: "prevotePOL vote prevotes st1 = Inr st1"
              by (rule prevotePOL_no_majority [OF None])
            let ?c2 = "regossip msg (c\<lparr>currentState := st1\<rparr>)"
            have p2: "GetProposer (valSet ?c2) \<noteq> None"
              using hasp by simp
            have v2: "GetPrevotesByRound (vRound vote) (currentState ?c2) \<noteq> None"
              using pv by simp
            obtain c3 where t: "prevoteTransitions vote prevotes ?c2 = Inr c3"
              using prevoteTransitions_returns [OF p2 v2] by blast
            have h: "handlePrevote x msg c = Inr (None, c3)"
              using dec hash height addT pv r t by (simp add: handlePrevote_def)
            have "LockedRound (currentState c3) = LockedRound st1"
              "LockedBlock (currentState c3) = LockedBlock st1"
              using prevoteTransitions_keeps_lock [OF t] by simp_all
            then show ?thesis
              using h dec hash addT pv None f by simp
          next
            case (Some h_maj)
            let ?cond = "LockedRound (currentState c) \<noteq> - 1 \<and>
                   LockedRound (currentState c) < vRound vote \<and>
                   vRound vote \<le> Round (currentState c) \<and>
                   blockHashOf (LockedBlock (currentState c)) \<noteq> h_maj"
            have nopanic: "\<not> (\<exists>v. decodeVote x (Msg msg) = Inr v \<and> vBlockHash v = None)"
              using dec hash by simp
            have trig: "(\<exists>vote st1 prevotes h_maj.
              decodeVote x (Msg msg) = Inr vote \<and>
              vBlockNumber vote = BlockNumber (currentState c) \<and>
              addPrevote msg vote (valSet c) (currentState c) = Inr (True, st1) \<and>
              GetPrevotesByRound (vRound vote) st1 = Some prevotes \<and>
              TwoThirdMajority prevotes = Some h_maj \<and>
              LockedRound (currentState c) \<noteq> - 1 \<and>
              LockedRound (currentState c) < vRound vote \<and>
              vRound vote \<le> Round (currentState c) \<and>
              blockHashOf (LockedBlock (currentState c)) \<noteq> h_maj) = ?cond"
              using dec height addT pv Some by auto
            obtain c' where h: "handlePrevote x msg c = Inr (None, c')"
              and lk: "if ?cond
                then LockedRound (currentState c') = - 1 \<and> LockedBlock (currentState c') = None
                else LockedRound (currentState c') = LockedRound (currentState c) \<and>
                     LockedBlock (currentState c') = LockedBlock (currentState c)"
              using handlePrevote_lock_on_majority [OF dec hash height addT pv Some wfl wfp hasp]
              by blast
            have "\<exists>e c'. handlePrevote x msg c = Inr (e, c') \<and>
               (if ?cond
                then LockedRound (currentState c') = - 1 \<and> LockedBlock (currentState c') = None
                else LockedRound (currentState c') = LockedRound (currentState c) \<and>
                     LockedBlock (currentState c') = LockedBlock (currentState c))"
              using h lk by blast
            then show ?thesis
              by (simp only: nopanic trig if_False)
          qed
        qed
      qed
    qed
  qed
qed


text \<open>The spec's scenario 3 at validator V1, locked in round 0 on the block of hash 5 and
  now in round 1. With two prevotes for the block of hash 7 in, the third one makes the
  majority and V1 unlocks. The same prevote as the first of its round makes no majority,
  and the lock stays; so it does when validator 2 repeats its prevote.\<close>

theorem handlePrevote_unlock_on_POL_witness:
  "(\<exists>e c'. handlePrevote exExt (exMsg msgPrevote [1, 7] 4) (exCore exTwoPrevotes) = Inr (e, c')
        \<and> LockedRound (currentState c') = - 1 \<and> LockedBlock (currentState c') = None)
   \<and> (\<exists>e c'. handlePrevote exExt (exMsg msgPrevote [1, 7] 4) (exCore exState1) = Inr (e, c')
        \<and> LockedRound (currentState c') = 0
        \<and> LockedBlock (currentState c') = Some (exBlock 5))
   \<and> (\<exists>e c'. handlePrevote exExt (exMsg msgPrevote [1, 7] 2) (exCore exTwoPrevotes) = Inr (e, c')
        \<and> LockedRound (currentState c') = 0
        \<and> LockedBlock (currentState c') = Some (exBlock 5))"
proof -
  let ?m = "exMsg msgPrevote [1, 7] 4"
  let ?d = "exMsg msgPrevote [1, 7] 2"
  let ?c1 = "exCore exTwoPrevotes"
  let ?c2 = "exCore exState1"
  have wfl1: "LockedRound (currentState ?c1) \<noteq> - 1 \<longrightarrow> LockedBlock (currentState ?c1) \<noteq> None"
    and wfl2: "LockedRound (currentState ?c2) \<noteq> - 1 \<longrightarrow> LockedBlock (currentState ?c2) \<noteq> None"
    by (simp_all add: ex_defs exTwoPrevotes_def)
  have wfp1: "\<forall>p. ProposalReceived (currentState ?c1) = Some p \<longrightarrow> pBlock p \<noteq> None"
    and wfp2: "\<forall>p. ProposalReceived (currentState ?c2) = Some p \<longrightarrow> pBlock p \<noteq> None"
    by (simp_all add: ex_defs exTwoPrevotes_def)
  have hasp1: "GetProposer (valSet ?c1) \<noteq> None" and hasp2: "GetProposer (valSet ?c2) \<noteq> None"
    by (simp_all add: ex_defs GetProposer_def)
  have a: "\<exists>e c'. handlePrevote exExt ?m ?c1 = Inr (e, c')
        \<and> LockedRound (currentState c') = - 1 \<and> LockedBlock (currentState c') = None"
    using handlePrevote_unlock_on_POL [OF wfl1 wfp1 hasp1, of exExt ?m]
    by (simp add: ex_defs exTwoPrevotes_def addPrevote_def GetPrevotesByRound_def Admit_def
        voteHash_def TwoThirdMajority_def Q_def F_def countHash_def blockHashOf_def)
  have b: "\<exists>e c'. handlePrevote exExt ?m ?c2 = Inr (e, c')
        \<and> LockedRound (currentState c') = 0
        \<and> LockedBlock (currentState c') = Some (exBlock 5)"
    using handlePrevote_unlock_on_POL [OF wfl2 wfp2 hasp2, of exExt ?m]
    by (simp add: ex_defs addPrevote_def GetPrevotesByRound_def Admit_def
        voteHash_def TwoThirdMajority_def Q_def F_def countHash_def blockHashOf_def
        newVoteSet_def)
  have c: "\<exists>e c'. handlePrevote exExt ?d ?c1 = Inr (e, c')
        \<and> LockedRound (currentState c') = 0
        \<and> LockedBlock (currentState c') = Some (exBlock 5)"
    using handlePrevote_unlock_on_POL [OF wfl1 wfp1 hasp1, of exExt ?d]
    by (simp add: ex_defs exTwoPrevotes_def addPrevote_def GetPrevotesByRound_def Admit_def
        voteHash_def TwoThirdMajority_def Q_def F_def countHash_def blockHashOf_def)
  show ?thesis
    using a b c by blast
qed

text \<open>Claim C6: a prevote is newly admitted, the prevotes of its round then have a
  two-thirds majority \<open>h_maj\<close> that is not \<open>H_nil\<close>, the valid round is below the vote's
  round, and the vote's round is the current round. The handler returns without error,
  and in the state it leaves: if a proposal was received and its block has the hash
  \<open>h_maj\<close>, the valid round is the vote's round and the valid block is the proposal's
  block; otherwise no proposal is held any more.\<close>

theorem handlePrevote_valid_block_update:
  assumes dec: "decodeVote x (Msg msg) = Inr vote"
    and hash: "vBlockHash vote \<noteq> None"
    and height: "vBlockNumber vote = BlockNumber (currentState c)"
    and add: "addPrevote msg vote (valSet c) (currentState c) = Inr (True, st1)"
    and pv: "GetPrevotesByRound (vRound vote) st1 = Some prevotes"
    and maj: "TwoThirdMajority prevotes = Some h_maj"
    and nonnil: "h_maj \<noteq> emptyBlockHash"
    and vr: "ValidRound (currentState c) < vRound vote"
    and cur: "vRound vote = Round (currentState c)"
    and wfl: "LockedRound (currentState c) \<noteq> - 1 \<longrightarrow> LockedBlock (currentState c) \<noteq> None"
    and wfp: "\<forall>p. ProposalReceived (currentState c) = Some p \<longrightarrow> pBlock p \<noteq> None"
  shows "\<exists>c'. handlePrevote x msg c = Inr (None, c') \<and>
     (case ProposalReceived (currentState c) of
        None \<Rightarrow> ProposalReceived (currentState c') = None
      | Some p \<Rightarrow>
          if blockHashOf (pBlock p) = h_maj
          then ValidRound (currentState c') = vRound vote \<and>
               ValidBlock (currentState c') = pBlock p
          else ProposalReceived (currentState c') = None)"
proof -
  let ?st = "currentState c"
  have k: "st1 = ?st\<lparr>PrevotesReceived := PrevotesReceived st1\<rparr>"
    by (rule addPrevote_keeps [OF add])
  have f: "LockedRound st1 = LockedRound ?st" "LockedBlock st1 = LockedBlock ?st"
    "Round st1 = Round ?st" "ProposalReceived st1 = ProposalReceived ?st"
    "ValidRound st1 = ValidRound ?st"
    by (subst k, simp)+
  have wfl1: "LockedRound st1 \<noteq> - 1 \<longrightarrow> LockedBlock st1 \<noteq> None"
    using wfl f by simp
  have wfp1: "\<forall>p. ProposalReceived st1 = Some p \<longrightarrow> pBlock p \<noteq> None"
    using wfp f by simp
  have g: "h_maj \<noteq> emptyBlockHash \<and> ValidRound st1 < vRound vote \<and> vRound vote = Round st1"
    using nonnil vr cur f by simp
  obtain st2 where r: "prevotePOL vote prevotes st1 = Inr st2"
    and pr: "PrevotesReceived st2 = PrevotesReceived st1"
    and rd: "Round st2 = Round st1"
    and vb: "case ProposalReceived st1 of
               None \<Rightarrow> ProposalReceived st2 = None \<and> ValidRound st2 = ValidRound st1 \<and>
                        ValidBlock st2 = ValidBlock st1
             | Some p \<Rightarrow>
                 if blockHashOf (pBlock p) = h_maj
                 then ValidRound st2 = vRound vote \<and> ValidBlock st2 = pBlock p \<and>
                      ProposalReceived st2 = Some p
                 else ProposalReceived st2 = None \<and> ValidRound st2 = ValidRound st1 \<and>
                      ValidBlock st2 = ValidBlock st1"
    using prevotePOL_result [OF wfl1 wfp1 maj, of vote] g by auto
  let ?c2 = "regossip msg (c\<lparr>currentState := st2\<rparr>)"
  have same: "vRound vote = Round (currentState ?c2)"
    using cur rd f by simp
  have v2: "GetPrevotesByRound (vRound vote) (currentState ?c2) \<noteq> None"
    using pv pr by (simp add: GetPrevotesByRound_def)
  have "\<exists>c3. prevoteTransitions vote prevotes ?c2 = Inr c3"
    using enterPrevoteWait_returns [OF v2] same
    by (simp add: prevoteTransitions_def Let_def split: option.splits)
  then obtain c3 where t: "prevoteTransitions vote prevotes ?c2 = Inr c3"
    by blast
  have h: "handlePrevote x msg c = Inr (None, c3)"
    using dec hash height add pv r t by (simp add: handlePrevote_def)
  have l3: "ValidRound (currentState c3) = ValidRound st2"
    "ValidBlock (currentState c3) = ValidBlock st2"
    "ProposalReceived (currentState c3) = ProposalReceived st2"
    using prevoteTransitions_keeps_valid [OF t same] by simp_all
  show ?thesis
    using h vb l3 f by (auto split: option.splits if_splits)
qed


text \<open>Validator V1 holds the proposal for the block of hash 7 when the third prevote for
  it arrives in round 1: the valid round becomes 1 and the valid block that block.\<close>

theorem handlePrevote_valid_block_update_witness:
  "\<exists>c'. handlePrevote exExt (exMsg msgPrevote [1, 7] 4) (exCore exTwoPrevotesProposal) =
          Inr (None, c')
        \<and> ValidRound (currentState c') = 1 \<and> ValidBlock (currentState c') = Some (exBlock 7)"
proof -
  let ?vote = "\<lparr>vBlockHash = Some 7, vRound = 1, vBlockNumber = 1\<rparr>"
  let ?pv = "\<lparr>vsValSet = exValSet, votes = [(2, 7), (3, 7), (4, 7)]\<rparr>"
  let ?st1 = "exTwoPrevotesProposal\<lparr>PrevotesReceived := [(1, ?pv)]\<rparr>"
  let ?c = "exCore exTwoPrevotesProposal"
  let ?m = "exMsg msgPrevote [1, 7] 4"
  have dec: "decodeVote exExt (Msg ?m) = Inr ?vote"
    by (simp add: ex_defs)
  have hash: "vBlockHash ?vote \<noteq> None"
    by simp
  have height: "vBlockNumber ?vote = BlockNumber (currentState ?c)"
    by (simp add: ex_defs exTwoPrevotes_def exTwoPrevotesProposal_def)
  have add: "addPrevote ?m ?vote (valSet ?c) (currentState ?c) = Inr (True, ?st1)"
    by (simp add: ex_defs exTwoPrevotes_def exTwoPrevotesProposal_def addPrevote_def
        GetPrevotesByRound_def Admit_def voteHash_def)
  have pv: "GetPrevotesByRound (vRound ?vote) ?st1 = Some ?pv"
    by (simp add: GetPrevotesByRound_def)
  have maj: "TwoThirdMajority ?pv = Some 7"
    by (simp add: TwoThirdMajority_def Q_def F_def countHash_def ex_defs)
  have nonnil: "(7 :: hash) \<noteq> emptyBlockHash"
    by (simp add: emptyBlockHash_def)
  have vr: "ValidRound (currentState ?c) < vRound ?vote"
    by (simp add: ex_defs exTwoPrevotes_def exTwoPrevotesProposal_def)
  have cur: "vRound ?vote = Round (currentState ?c)"
    by (simp add: ex_defs exTwoPrevotes_def exTwoPrevotesProposal_def)
  have wfl: "LockedRound (currentState ?c) \<noteq> - 1 \<longrightarrow> LockedBlock (currentState ?c) \<noteq> None"
    by (simp add: ex_defs exTwoPrevotes_def exTwoPrevotesProposal_def)
  have wfp: "\<forall>p. ProposalReceived (currentState ?c) = Some p \<longrightarrow> pBlock p \<noteq> None"
    by (simp add: ex_defs exTwoPrevotes_def exTwoPrevotesProposal_def)
  show ?thesis
    using handlePrevote_valid_block_update [OF dec hash height add pv maj nonnil vr cur wfl wfp]
    by (simp add: ex_defs exTwoPrevotes_def exTwoPrevotesProposal_def blockHashOf_def)
qed

section \<open>The validator set of a height\<close>

text \<open>For a height within \<open>uint64\<close> the checkpoint computed on machine words is the
  number H - (H mod Epoch), and for a height within \<open>int64\<close> the set is built for that
  height.\<close>

lemma Uint64_in_range:
  assumes "0 \<le> H" and "H < 2 ^ 64"
  shows "uint (Uint64 H) = H"
  using assms by (simp add: Uint64_def uint_word_of_int take_bit_int_eq_self)

lemma checkpoint_word:
  fixes w e :: "64 word"
  shows "w - w mod e = word_of_int (uint w - uint w mod uint e)"
  by (simp add: word_mod_def)

lemma GetCheckpointNumber_value:
  assumes "epoch \<noteq> 0" and "0 \<le> H" and "H < 2 ^ 64"
  shows "GetCheckpointNumber epoch (Uint64 H) = Inr (word_of_int (H - H mod uint epoch))"
  using assms checkpoint_word [of "Uint64 H" epoch] Uint64_in_range [of H]
  by (simp add: GetCheckpointNumber_def)

lemma Int64_in_range:
  assumes "0 \<le> H" and "H < 2 ^ 63"
  shows "Int64 H = H"
  using assms by (simp add: Int64_def signed_of_int signed_take_bit_int_eq_self)

text \<open>Claim C9: for a height H (within \<open>uint64\<close>, with a non-zero epoch) \<open>GetValSet\<close> asks
  the chain reader for the header of block H - (H mod Epoch). It returns
  \<open>ErrUnknownBlock\<close> when there is no such header (or the header's hash is the zero hash,
  which the source treats alike), the error of the extra-data extraction when that fails,
  \<open>ErrEmptyValSet\<close> when the extracted \<open>ValidatorAdds\<close> field is empty, the error of
  the RLP decoding when that fails, each with an empty validator set; and otherwise the
  validator set of the decoded addresses with the round-robin policy, and no error.\<close>

theorem GetValSet_resolves:
  assumes "Epoch v \<noteq> 0" and "0 \<le> H" and "H < 2 ^ 64"
  shows "GetValSet ch v H =
     Inr (case GetHeaderByNumber ch (word_of_int (H - H mod uint (Epoch v))) of
            None \<Rightarrow> (NewSet [] RoundRobin (Int64 H), Some ErrUnknownBlock)
          | Some hdr \<Rightarrow>
              if headerHash ch hdr = 0
              then (NewSet [] RoundRobin (Int64 H), Some ErrUnknownBlock)
              else (case ExtractTendermintExtra ch hdr of
                      Inl err \<Rightarrow> (NewSet [] RoundRobin (Int64 H), Some (ErrLib err))
                    | Inr extra \<Rightarrow>
                        if ValidatorAdds extra = []
                        then (NewSet [] RoundRobin (Int64 H), Some ErrEmptyValSet)
                        else (case decodeAddresses ch (ValidatorAdds extra) of
                                Inl err \<Rightarrow>
                                  (NewSet [] RoundRobin (Int64 H), Some (ErrLib err))
                              | Inr validatorAdds \<Rightarrow>
                                  (NewSet validatorAdds RoundRobin (Int64 H), None))))"
  using GetCheckpointNumber_value [OF assms]
  by (simp add: GetValSet_def Let_def split: option.splits sum.splits)

text \<open>Height 25 resolves to the header of block 20 and its four validators; height 39
  resolves to block 30, which the chain does not hold.\<close>

theorem GetValSet_resolves_witness:
  "GetValSet exChain \<lparr>Epoch = 10\<rparr> 25 = Inr (NewSet [1, 2, 3, 4] RoundRobin 25, None)
   \<and> GetValSet exChain \<lparr>Epoch = 10\<rparr> 39 = Inr (NewSet [] RoundRobin 39, Some ErrUnknownBlock)"
proof -
  have e: "Epoch \<lparr>Epoch = 10\<rparr> \<noteq> 0" by simp
  have i1: "Int64 25 = 25" and i2: "Int64 39 = 39"
    by (simp_all add: Int64_def)
  show ?thesis
    using GetValSet_resolves [OF e, of 25 exChain] GetValSet_resolves [OF e, of 39 exChain] i1 i2
    by (simp add: exChain_def)
qed

section \<open>The wire codec of a message\<close>

text \<open>Big-endian digits: the number is read back, the first digit is not zero, and a
  number below \<open>2 ^ 64\<close> has at most eight digits.\<close>

lemma be_nat_snoc: "be_nat (xs @ [b]) = be_nat xs * 256 + unat b"
  by (simp add: be_nat_def)

lemma be_nat_Nil [simp]: "be_nat [] = 0"
  by (simp add: be_nat_def)

lemma unat_byte_of_nat: "k < 256 \<Longrightarrow> unat (of_nat k :: byte) = k"
  by (simp add: unat_of_nat)

lemma be_nat_be_bytes: "be_nat (be_bytes n) = n"
proof (induction n rule: be_bytes.induct)
  case (1 n)
  show ?case
  proof (cases "n = 0")
    case True
    then show ?thesis by (simp add: be_bytes.simps)
  next
    case False
    have "be_bytes n = be_bytes (n div 256) @ [of_nat (n mod 256)]"
      using False by (subst be_bytes.simps) simp
    then show ?thesis
      using 1 False by (simp add: be_nat_snoc unat_byte_of_nat)
  qed
qed

lemma be_bytes_nonempty: "0 < n \<Longrightarrow> be_bytes n \<noteq> []"
  by (subst be_bytes.simps) simp

lemma be_bytes_zero [simp]: "be_bytes 0 = []"
  by (simp add: be_bytes.simps)

lemma byte_of_nat_nonzero: "0 < k \<Longrightarrow> k < 256 \<Longrightarrow> (of_nat k :: byte) \<noteq> 0"
  using unat_byte_of_nat [of k] by (auto simp del: of_nat_eq_0_iff)

lemma hd_be_bytes: "0 < n \<Longrightarrow> hd (be_bytes n) \<noteq> 0"
proof (induction n rule: be_bytes.induct)
  case (1 n)
  have e: "be_bytes n = be_bytes (n div 256) @ [of_nat (n mod 256)]"
    using 1(2) by (subst be_bytes.simps) simp
  show ?case
  proof (cases "n div 256 = 0")
    case True
    then have "n < 256" by (simp add: div_eq_0_iff)
    then show ?thesis
      using e True 1(2) by (simp add: byte_of_nat_nonzero)
  next
    case False
    then have "hd (be_bytes (n div 256)) \<noteq> 0"
      using 1 by simp
    moreover have "be_bytes (n div 256) \<noteq> []"
      using False by (simp add: be_bytes_nonempty)
    ultimately show ?thesis
      using e by simp
  qed
qed

lemma length_be_bytes: "n < 256 ^ k \<Longrightarrow> length (be_bytes n) \<le> k"
proof (induction k arbitrary: n)
  case 0
  then show ?case by simp
next
  case (Suc k)
  show ?case
  proof (cases "n = 0")
    case True
    then show ?thesis by simp
  next
    case False
    have e: "be_bytes n = be_bytes (n div 256) @ [of_nat (n mod 256)]"
      using False by (subst be_bytes.simps) simp
    have "n div 256 < 256 ^ k"
      using Suc.prems by (simp add: less_mult_imp_div_less mult.commute)
    then show ?thesis
      using Suc.IH e by simp
  qed
qed

lemma length_be_bytes_64: "n < 2 ^ 64 \<Longrightarrow> length (be_bytes n) \<le> 8"
  using length_be_bytes [of n 8] by simp

lemma length_be_bytes_pos: "0 < n \<Longrightarrow> 0 < length (be_bytes n)"
  using be_bytes_nonempty by auto

lemma length_be_fixed [simp]: "length (be_fixed k n) = k"
  by (induction k arbitrary: n) simp_all

lemma be_nat_be_fixed: "n < 256 ^ k \<Longrightarrow> be_nat (be_fixed k n) = n"
proof (induction k arbitrary: n)
  case 0
  then show ?case by simp
next
  case (Suc k)
  have "n div 256 < 256 ^ k"
    using Suc.prems by (simp add: less_mult_imp_div_less mult.commute)
  then show ?case
    using Suc.IH by (simp add: be_nat_snoc unat_byte_of_nat)
qed

lemma bytes_address_inverse: "bytes_address (address_bytes a) = a"
proof -
  have "unat a < 2 ^ 160"
    using unsigned_less [of a, where 'a = nat] by simp
  then have "unat a < 256 ^ 20" by simp
  then show ?thesis
    by (simp add: bytes_address_def address_bytes_def be_nat_be_fixed)
qed


lemma readSize_be_bytes:
  assumes "56 \<le> n"
  shows "readSize (length (be_bytes n)) (be_bytes n @ rest) = Some (n, rest)"
  using assms hd_be_bytes [of n] be_bytes_nonempty [of n]
  by (simp add: readSize_def be_nat_be_bytes)

lemma readKind_string_header:
  assumes "n < 2 ^ 64"
  shows "readKind (rlp_string_header n @ rest) = Some (HString n, rest)"
proof (cases "n < 56")
  case True
  then have "unat (of_nat (128 + n) :: byte) = 128 + n"
    by (simp add: unat_of_nat del: of_nat_add)
  then show ?thesis
    using True by (simp add: readKind_def rlp_string_header_def)
next
  case False
  let ?L = "length (be_bytes n)"
  have L: "0 < ?L" "?L \<le> 8"
    using False assms length_be_bytes_pos [of n] length_be_bytes_64 [of n] by auto
  then have u: "unat (of_nat (183 + ?L) :: byte) = 183 + ?L"
    using L by (simp add: unat_of_nat del: of_nat_add)
  show ?thesis
    using False L readSize_be_bytes [of n rest]
    by (simp add: readKind_def rlp_string_header_def u del: of_nat_add)
qed

lemma readKind_list_header:
  assumes "n < 2 ^ 64"
  shows "readKind (rlp_list_header n @ rest) = Some (HList n, rest)"
proof (cases "n < 56")
  case True
  then have "unat (of_nat (192 + n) :: byte) = 192 + n"
    by (simp add: unat_of_nat del: of_nat_add)
  then show ?thesis
    using True by (simp add: readKind_def rlp_list_header_def)
next
  case False
  let ?L = "length (be_bytes n)"
  have L: "0 < ?L" "?L \<le> 8"
    using False assms length_be_bytes_pos [of n] length_be_bytes_64 [of n] by auto
  then have u: "unat (of_nat (247 + ?L) :: byte) = 247 + ?L"
    using L by (simp add: unat_of_nat del: of_nat_add)
  show ?thesis
    using False L readSize_be_bytes [of n rest]
    by (simp add: readKind_def rlp_list_header_def u del: of_nat_add)
qed

lemma rlp_decode_encode_bytes:
  assumes "length b < 2 ^ 64"
  shows "rlp_decode_bytes (rlp_encode_bytes b @ rest) = Some (b, rest)"
proof (cases "length b = 1 \<and> hd b \<le> 127")
  case True
  then obtain x where b: "b = [x]"
    by (cases b) auto
  have "unat x < 128"
    using True b by (simp add: word_le_nat_alt)
  then show ?thesis
    using True b by (simp add: rlp_decode_bytes_def rlp_encode_bytes_def readKind_def)
next
  case False
  have one: "length b = 1 \<Longrightarrow> \<not> unat (hd b) < 128"
    using False by (auto simp add: word_le_nat_alt)
  have "length b = 1 \<Longrightarrow> hd (b @ rest) = hd b"
    by (cases b) auto
  then show ?thesis
    using False one readKind_string_header [OF assms, of "b @ rest"]
    by (auto simp add: rlp_decode_bytes_def rlp_encode_bytes_def)
qed

lemma rlp_decode_encode_address:
  "rlp_decode_address (rlp_encode_bytes (address_bytes a) @ rest) = Some (a, rest)"
proof -
  have l: "length (address_bytes a) = 20"
    by (simp add: address_bytes_def)
  have "readKind (rlp_string_header 20 @ address_bytes a @ rest) =
          Some (HString 20, address_bytes a @ rest)"
    by (rule readKind_string_header) simp
  then show ?thesis
    using l by (simp add: rlp_decode_address_def rlp_encode_bytes_def bytes_address_inverse)
qed

lemma rlp_decode_encode_uint:
  "rlp_decode_uint (rlp_encode_uint i @ rest) = Some (i, rest)"
proof -
  consider "i = 0" | "i \<noteq> 0" "i < 128" | "\<not> i < 128"
    by blast
  then show ?thesis
  proof cases
    case 1
    then show ?thesis
      by (simp add: rlp_decode_uint_def rlp_encode_uint_def readKind_def)
  next
    case 2
    have u: "unat i < 128"
      using 2(2) by (simp add: word_less_nat_alt)
    then have ub: "unat (ucast i :: byte) = unat i"
      by (simp add: unsigned_ucast_eq take_bit_nat_eq_self)
    have "unat i \<noteq> 0"
      using 2(1) by (simp add: unat_eq_0)
    then have nz: "(ucast i :: byte) \<noteq> 0"
      using ub by (metis unat_eq_0)
    have rt: "(ucast (ucast i :: byte) :: 64 word) = i"
      using u by (intro word_unat_eq_iff [THEN iffD2])
        (simp add: unsigned_ucast_eq unsigned_take_bit_eq take_bit_nat_eq_self)
    show ?thesis
      using 2 u ub nz rt
      by (simp add: rlp_decode_uint_def rlp_encode_uint_def readKind_def)
  next
    case 3
    let ?n = "unat i"
    let ?bs = "be_bytes ?n"
    let ?L = "length ?bs"
    have n: "128 \<le> ?n"
      using 3 by (simp add: word_less_nat_alt)
    have n64: "?n < 2 ^ 64"
      using unsigned_less [of i, where 'a = nat] by simp
    have L: "0 < ?L" "?L \<le> 8"
      using n n64 length_be_bytes_pos [of ?n] length_be_bytes_64 [of ?n] by auto
    have u: "unat (of_nat (128 + ?L) :: byte) = 128 + ?L"
      using L by (simp add: unat_of_nat del: of_nat_add)
    have ne: "?bs \<noteq> []"
      using L by auto
    have h: "hd (?bs @ rest) = hd ?bs"
      using ne by simp
    have hz: "hd ?bs \<noteq> 0"
      using n by (simp add: hd_be_bytes)
    have one: "?L = 1 \<Longrightarrow> \<not> unat (hd ?bs) < 128"
    proof -
      assume l1: "?L = 1"
      then obtain x where x: "?bs = [x]"
        by (cases ?bs) auto
      have "be_nat ?bs = ?n"
        by (rule be_nat_be_bytes)
      then have "unat x = ?n"
        using x by (simp add: be_nat_def)
      then show ?thesis
        using x n by simp
    qed
    have i0: "i \<noteq> 0"
      using n by auto
    show ?thesis
      using 3 i0 L u h hz one
      by (auto simp add: rlp_decode_uint_def rlp_encode_uint_def readKind_def be_nat_be_bytes
          simp del: of_nat_add)
  qed
qed


lemma length_rlp_encode_bytes:
  assumes "length b < 2 ^ 64"
  shows "length (rlp_encode_bytes b) \<le> length b + 9"
  using length_be_bytes_64 [OF assms]
  by (simp add: rlp_encode_bytes_def rlp_string_header_def)

lemma length_rlp_encode_uint: "length (rlp_encode_uint i) \<le> 9"
proof -
  have "unat i < 2 ^ 64"
    using unsigned_less [of i, where 'a = nat] by simp
  then show ?thesis
    using length_be_bytes_64 [of "unat i"] by (simp add: rlp_encode_uint_def)
qed

lemma length_rlp_encode_address: "length (rlp_encode_bytes (address_bytes a)) = 21"
  by (simp add: rlp_encode_bytes_def rlp_string_header_def address_bytes_def)

text \<open>Claim C10: for every message, that is a 64-bit code, a 20-byte address and three
  byte strings (short enough for the list payload to have a 64-bit size), decoding the
  stream written by \<open>EncodeRLP\<close> with \<open>DecodeRLP\<close> succeeds, gives a message with the
  same five fields, and leaves what followed the message in the stream. A nil and an
  empty byte slice are the same byte string here, as they are on the wire.\<close>

theorem DecodeRLP_EncodeRLP:
  assumes "length (Msg m) + length (Signature m) + length (CommittedSeal m) + 57 < 2 ^ 64"
  shows "DecodeRLP (EncodeRLP m @ rest) = Some (m, rest)"
proof -
  let ?e1 = "rlp_encode_uint (Code m)"
  let ?e2 = "rlp_encode_bytes (Msg m)"
  let ?e3 = "rlp_encode_bytes (address_bytes (Address m))"
  let ?e4 = "rlp_encode_bytes (Signature m)"
  let ?e5 = "rlp_encode_bytes (CommittedSeal m)"
  let ?payload = "?e1 @ ?e2 @ ?e3 @ ?e4 @ ?e5"
  have lm: "length (Msg m) < 2 ^ 64" and ls: "length (Signature m) < 2 ^ 64"
    and lc: "length (CommittedSeal m) < 2 ^ 64"
    using assms by simp_all
  have n: "length ?payload < 2 ^ 64"
    using assms length_rlp_encode_uint [of "Code m"] length_rlp_encode_bytes [OF lm]
      length_rlp_encode_bytes [OF ls] length_rlp_encode_bytes [OF lc]
      length_rlp_encode_address [of "Address m"]
    by simp
  have enc: "EncodeRLP m @ rest = rlp_list_header (length ?payload) @ ?payload @ rest"
    by (simp add: EncodeRLP_def rlp_encode_list_def)
  have hd: "readKind (EncodeRLP m @ rest) = Some (HList (length ?payload), ?payload @ rest)"
    unfolding enc by (rule readKind_list_header [OF n])
  have d1: "rlp_decode_uint ?payload = Some (Code m, ?e2 @ ?e3 @ ?e4 @ ?e5)"
    by (rule rlp_decode_encode_uint)
  have d2: "rlp_decode_bytes (?e2 @ ?e3 @ ?e4 @ ?e5) = Some (Msg m, ?e3 @ ?e4 @ ?e5)"
    by (rule rlp_decode_encode_bytes [OF lm])
  have d3: "rlp_decode_address (?e3 @ ?e4 @ ?e5) = Some (Address m, ?e4 @ ?e5)"
    by (rule rlp_decode_encode_address)
  have d4: "rlp_decode_bytes (?e4 @ ?e5) = Some (Signature m, ?e5)"
    by (rule rlp_decode_encode_bytes [OF ls])
  have d5: "rlp_decode_bytes ?e5 = Some (CommittedSeal m, [])"
    using rlp_decode_encode_bytes [OF lc, of "[]"] by simp
  have "DecodeRLP (EncodeRLP m @ rest) =
          Some (\<lparr>Code = Code m, Msg = Msg m, Address = Address m,
                  Signature = Signature m, CommittedSeal = CommittedSeal m\<rparr>, rest)"
    unfolding DecodeRLP_def hd using d1 d2 d3 d4 d5 by simp
  then show ?thesis by simp
qed

text \<open>The bytes of a prevote message, and the message read back from them.\<close>

lemma exMessage_bytes:
  "EncodeRLP exMessage =
     [220, 1, 130, 1, 7, 148, 0, 0, 0, 0, 0, 0, 0, 0, 0, 0, 0, 0, 0, 0, 0, 0, 0, 0, 0, 4, 129, 200, 128]"
  by code_simp

theorem DecodeRLP_EncodeRLP_witness:
  "DecodeRLP (EncodeRLP exMessage) = Some (exMessage, [])"
  using DecodeRLP_EncodeRLP [of exMessage "[]"] by (simp add: exMessage_def)

end
